theory Spec2Isabelle
  imports Main "HOL-Library.Word"
begin

unbundle bit_operations_syntax

section \<open>JavaScript values and the SmartErrorCode registry (src/kasa/exceptions.js)\<close>

text \<open>
  The values that flow through the error-code paths.  A device response is parsed JSON;
  its \<open>error_code\<close> member is a number on the wire, absent (\<open>undefined\<close>) or some
  other primitive.  \<open>SmartErrorCode.fromInt\<close> answers with a freshly allocated object
  literal \<open>{ name, value }\<close>, modelled by \<open>JErrObj\<close>.  Numbers are the integers
  the registry and the wire use.
\<close>

datatype js = JUndefined | JNull | JBool bool | JNum int | JStr string | JErrObj string js

text \<open>
  Strict equality \<open>===\<close>.  Primitives compare by value.  An object is identical only to
  itself (the same reference); every comparison of the modelled code has a number, a
  static field of \<open>SmartErrorCode\<close>, on one side, so an object never meets itself and
  the object rows are \<open>False\<close>.
\<close>

fun strict_eq :: "js \<Rightarrow> js \<Rightarrow> bool" where
  "strict_eq JUndefined JUndefined = True"
| "strict_eq JNull JNull = True"
| "strict_eq (JBool a) (JBool b) = (a = b)"
| "strict_eq (JNum a) (JNum b) = (a = b)"
| "strict_eq (JStr a) (JStr b) = (a = b)"
| "strict_eq _ _ = False"

text \<open>\<open>Set.prototype.has\<close> and \<open>Array.prototype.includes\<close> (SameValueZero, which
  agrees with \<open>===\<close> on the integers, strings and objects used here).\<close>

definition js_has :: "js list \<Rightarrow> js \<Rightarrow> bool" where
  "js_has xs v = list_ex (\<lambda>x. strict_eq x v) xs"

text \<open>Truthiness, for \<open>a || b\<close> and \<open>!a\<close>.\<close>

fun truthy :: "js \<Rightarrow> bool" where
  "truthy JUndefined = False"
| "truthy JNull = False"
| "truthy (JBool b) = b"
| "truthy (JNum n) = (n \<noteq> 0)"
| "truthy (JStr s) = (s \<noteq> [])"
| "truthy (JErrObj _ _) = True"

definition js_or :: "js \<Rightarrow> js \<Rightarrow> js" where
  "js_or a b = (if truthy a then a else b)"

text \<open>The static number fields of \<open>class SmartErrorCode\<close>, in declaration order
  (the order \<open>Object.entries\<close> visits them).\<close>

definition SmartErrorCode_entries :: "(string \<times> int) list" where
  "SmartErrorCode_entries = [
    (''SUCCESS'', 0),
    (''SESSION_TIMEOUT_ERROR'', 9999),
    (''MULTI_REQUEST_FAILED_ERROR'', 1200),
    (''HTTP_TRANSPORT_FAILED_ERROR'', 1112),
    (''LOGIN_FAILED_ERROR'', 1111),
    (''HAND_SHAKE_FAILED_ERROR'', 1100),
    (''TRANSPORT_UNKNOWN_CREDENTIALS_ERROR'', 1003),
    (''TRANSPORT_NOT_AVAILABLE_ERROR'', 1002),
    (''CMD_COMMAND_CANCEL_ERROR'', 1001),
    (''NULL_TRANSPORT_ERROR'', 1000),
    (''COMMON_FAILED_ERROR'', (-1)),
    (''UNSPECIFIC_ERROR'', (-1001)),
    (''UNKNOWN_METHOD_ERROR'', (-1002)),
    (''JSON_DECODE_FAIL_ERROR'', (-1003)),
    (''JSON_ENCODE_FAIL_ERROR'', (-1004)),
    (''AES_DECODE_FAIL_ERROR'', (-1005)),
    (''REQUEST_LEN_ERROR_ERROR'', (-1006)),
    (''CLOUD_FAILED_ERROR'', (-1007)),
    (''PARAMS_ERROR'', (-1008)),
    (''INVALID_PUBLIC_KEY_ERROR'', (-1010)),
    (''SESSION_PARAM_ERROR'', (-1101)),
    (''QUICK_SETUP_ERROR'', (-1201)),
    (''DEVICE_ERROR'', (-1301)),
    (''DEVICE_NEXT_EVENT_ERROR'', (-1302)),
    (''FIRMWARE_ERROR'', (-1401)),
    (''FIRMWARE_VER_ERROR_ERROR'', (-1402)),
    (''LOGIN_ERROR'', (-1501)),
    (''TIME_ERROR'', (-1601)),
    (''TIME_SYS_ERROR'', (-1602)),
    (''TIME_SAVE_ERROR'', (-1603)),
    (''WIRELESS_ERROR'', (-1701)),
    (''WIRELESS_UNSUPPORTED_ERROR'', (-1702)),
    (''SCHEDULE_ERROR'', (-1801)),
    (''SCHEDULE_FULL_ERROR'', (-1802)),
    (''SCHEDULE_CONFLICT_ERROR'', (-1803)),
    (''SCHEDULE_SAVE_ERROR'', (-1804)),
    (''SCHEDULE_INDEX_ERROR'', (-1805)),
    (''COUNTDOWN_ERROR'', (-1901)),
    (''COUNTDOWN_CONFLICT_ERROR'', (-1902)),
    (''COUNTDOWN_SAVE_ERROR'', (-1903)),
    (''ANTITHEFT_ERROR'', (-2001)),
    (''ANTITHEFT_CONFLICT_ERROR'', (-2002)),
    (''ANTITHEFT_SAVE_ERROR'', (-2003)),
    (''ACCOUNT_ERROR'', (-2101)),
    (''STAT_ERROR'', (-2201)),
    (''STAT_SAVE_ERROR'', (-2202)),
    (''DST_ERROR'', (-2301)),
    (''DST_SAVE_ERROR'', (-2302)),
    (''VACUUM_BATTERY_LOW'', (-3001)),
    (''SYSTEM_ERROR'', (-40101)),
    (''INVALID_ARGUMENTS'', (-40209)),
    (''SESSION_EXPIRED'', (-40401)),
    (''BAD_USERNAME'', (-40411)),
    (''HOMEKIT_LOGIN_FAIL'', (-40412)),
    (''DEVICE_BLOCKED'', (-40404)),
    (''DEVICE_FACTORY'', (-40405)),
    (''OUT_OF_LIMIT'', (-40406)),
    (''OTHER_ERROR'', (-40407)),
    (''SYSTEM_BLOCKED'', (-40408)),
    (''NONCE_EXPIRED'', (-40409)),
    (''FFS_NONE_PWD'', (-90000)),
    (''TIMEOUT_ERROR'', 40108),
    (''UNSUPPORTED_METHOD'', (-40106)),
    (''ONE_SECOND_REPEAT_REQUEST'', (-40109)),
    (''INVALID_NONCE'', (-40413)),
    (''PROTOCOL_FORMAT_ERROR'', (-40210)),
    (''IP_CONFLICT'', (-40321)),
    (''DIAGNOSE_TYPE_NOT_SUPPORT'', (-69051)),
    (''DIAGNOSE_TASK_FULL'', (-69052)),
    (''DIAGNOSE_TASK_BUSY'', (-69053)),
    (''DIAGNOSE_INTERNAL_ERROR'', (-69055)),
    (''DIAGNOSE_ID_NOT_FOUND'', (-69056)),
    (''DIAGNOSE_TASK_NULL'', (-69057)),
    (''CLOUD_LINK_DOWN'', (-69060)),
    (''ONVIF_SET_WRONG_TIME'', (-69061)),
    (''CLOUD_NTP_NO_RESPONSE'', (-69062)),
    (''CLOUD_GET_WRONG_TIME'', (-69063)),
    (''SNTP_SRV_NO_RESPONSE'', (-69064)),
    (''SNTP_GET_WRONG_TIME'', (-69065)),
    (''LINK_UNCONNECTED'', (-69076)),
    (''WIFI_SIGNAL_WEAK'', (-69077)),
    (''LOCAL_NETWORK_POOR'', (-69078)),
    (''CLOUD_NETWORK_POOR'', (-69079)),
    (''INTER_NETWORK_POOR'', (-69080)),
    (''DNS_TIMEOUT'', (-69081)),
    (''DNS_ERROR'', (-69082)),
    (''PING_NO_RESPONSE'', (-69083)),
    (''DHCP_MULTI_SERVER'', (-69084)),
    (''DHCP_ERROR'', (-69085)),
    (''STREAM_SESSION_CLOSE'', (-69094)),
    (''STREAM_BITRATE_EXCEPTION'', (-69095)),
    (''STREAM_FULL'', (-69096)),
    (''STREAM_NO_INTERNET'', (-69097)),
    (''HARDWIRED_NOT_FOUND'', (-72101)),
    (''INTERNAL_UNKNOWN_ERROR'', (-100000)),
    (''INTERNAL_QUERY_ERROR'', (-100001))
  ]"

text \<open>A static field read: \<open>SmartErrorCode.X\<close> is the number, or \<open>undefined\<close> when the
  class declares no such field (as for \<open>SmartErrorCode.DEVICE_BUSY\<close>).\<close>

definition SmartErrorCode_static :: "string \<Rightarrow> js" where
  "SmartErrorCode_static k =
     (case map_of SmartErrorCode_entries k of Some v \<Rightarrow> JNum v | None \<Rightarrow> JUndefined)"

fun fromInt_loop :: "(string \<times> int) list \<Rightarrow> js \<Rightarrow> js" where
  "fromInt_loop [] v = JErrObj ''UNKNOWN'' v"
| "fromInt_loop ((k, errorValue) # rest) v =
     (if strict_eq (JNum errorValue) v then JErrObj k (JNum errorValue)
      else fromInt_loop rest v)"

definition SmartErrorCode_fromInt :: "js \<Rightarrow> js" where
  "SmartErrorCode_fromInt v = fromInt_loop SmartErrorCode_entries v"

text \<open>Property reads \<open>errorCode.name\<close> and \<open>errorCode.value\<close>; on a number both are
  \<open>undefined\<close>.\<close>

fun js_name :: "js \<Rightarrow> js" where
  "js_name (JErrObj n _) = JStr n"
| "js_name _ = JUndefined"

fun js_value :: "js \<Rightarrow> js" where
  "js_value (JErrObj _ v) = v"
| "js_value _ = JUndefined"

subsection \<open>Template-literal rendering\<close>

definition digit_char :: "nat \<Rightarrow> char" where
  "digit_char n = ''0123456789'' ! n"

fun show_nat :: "nat \<Rightarrow> string" where
  "show_nat n =
     (if n < 10 then [digit_char n] else show_nat (n div 10) @ [digit_char (n mod 10)])"

declare show_nat.simps [simp del]

definition show_int :: "int \<Rightarrow> string" where
  "show_int i = (if i < 0 then CHR ''-'' # show_nat (nat (- i)) else show_nat (nat i))"

fun js_to_string :: "js \<Rightarrow> string" where
  "js_to_string JUndefined = ''undefined''"
| "js_to_string JNull = ''null''"
| "js_to_string (JBool b) = (if b then ''true'' else ''false'')"
| "js_to_string (JNum n) = show_int n"
| "js_to_string (JStr s) = s"
| "js_to_string (JErrObj _ _) = ''[object Object]''"

subsection \<open>The exception classes\<close>

datatype exn_class =
    PlainError | TypeError | RangeError
  | KasaException | TimeoutError | ConnectionError | UnsupportedDeviceError
  | DeviceError | AuthenticationError | RetryableError

text \<open>An exception object: its class, its message and, for the \<open>DeviceError\<close> family,
  the \<open>errorCode\<close> property (\<open>undefined\<close> on the other classes).\<close>

record exn =
  exn_class :: exn_class
  exn_message :: string
  exn_errorCode :: js

text \<open>The \<open>extends\<close> chain: \<open>superclasses c\<close> lists \<open>c\<close> and its ancestors.\<close>

fun superclasses :: "exn_class \<Rightarrow> exn_class list" where
  "superclasses PlainError = [PlainError]"
| "superclasses TypeError = [TypeError, PlainError]"
| "superclasses RangeError = [RangeError, PlainError]"
| "superclasses KasaException = [KasaException, PlainError]"
| "superclasses TimeoutError = [TimeoutError, KasaException, PlainError]"
| "superclasses ConnectionError = [ConnectionError, KasaException, PlainError]"
| "superclasses UnsupportedDeviceError = [UnsupportedDeviceError, KasaException, PlainError]"
| "superclasses DeviceError = [DeviceError, KasaException, PlainError]"
| "superclasses AuthenticationError =
     [AuthenticationError, DeviceError, KasaException, PlainError]"
| "superclasses RetryableError = [RetryableError, DeviceError, KasaException, PlainError]"

definition instanceof :: "exn \<Rightarrow> exn_class \<Rightarrow> bool" where
  "instanceof e c = (c \<in> set (superclasses (exn_class e)))"

text \<open>Constructors.  \<open>DeviceError\<close> and its subclasses store
  \<open>options.errorCode || null\<close>.\<close>

definition new_plain :: "exn_class \<Rightarrow> string \<Rightarrow> exn" where
  "new_plain c msg = \<lparr>exn_class = c, exn_message = msg, exn_errorCode = JUndefined\<rparr>"

definition new_device_error :: "exn_class \<Rightarrow> string \<Rightarrow> js \<Rightarrow> exn" where
  "new_device_error c msg code = \<lparr>exn_class = c, exn_message = msg, exn_errorCode = js_or code JNull\<rparr>"


section \<open>HttpClient.post (src/unnamed/part_017)\<close>

datatype header_value = HStr string | HNum nat

text \<open>
  What a caller hands to \<open>post\<close> as its \<open>json\<close> option: a plain object, given
  here by the text \<open>JSON.stringify\<close> produces for it, or the object returned by calling
  an \<open>async function*\<close>.  An async generator object has no own enumerable property and
  no \<open>toJSON\<close>, so \<open>JSON.stringify\<close> renders it as \<open>{}\<close>; its body is not run.
\<close>

datatype post_json = PlainObject string | AsyncGeneratorObject

fun JSON_stringify :: "post_json \<Rightarrow> string" where
  "JSON_stringify (PlainObject s) = s"
| "JSON_stringify AsyncGeneratorObject = ''{}''"

record http_request =
  req_url :: string
  req_headers :: "string \<rightharpoonup> header_value"
  req_data :: "string option"

text \<open>
  What \<open>JSON.parse\<close> makes of a text: it throws a \<open>SyntaxError\<close> with a message, or
  it gives \<open>null\<close>, or it gives a value (an object, for the texts read here).
\<close>

datatype 'b parsed_json = JsonSyntaxError string | JsonNull | JsonValue 'b

text \<open>
  The network, as \<open>_makeRequest\<close> sees it: the socket fails with an error code and a
  message, or a response arrives with a status, a body (given by what \<open>jsonLoads\<close> makes
  of its text) and the cookies of its \<open>set-cookie\<close> headers.  The \<open>k\<close>-th request of a
  client gets the \<open>k\<close>-th outcome.
\<close>

datatype 'b net_outcome =
    NetError string string
  | NetResponse int "'b parsed_json" "string \<rightharpoonup> string"

record http_client =
  sent :: "http_request list"
  jar :: "string \<rightharpoonup> string"

fun join_with :: "string \<Rightarrow> string list \<Rightarrow> string" where
  "join_with sep [] = []"
| "join_with sep [x] = x"
| "join_with sep (x # y # ys) = x @ sep @ join_with sep (y # ys)"

definition cookie_header :: "(string \<times> string) list \<Rightarrow> string" where
  "cookie_header cs = join_with ''; '' (map (\<lambda>(k, v). k @ ''='' @ v) cs)"

definition HttpClient_request ::
  "string \<Rightarrow> post_json option \<Rightarrow> (string \<rightharpoonup> header_value) \<Rightarrow>
   (string \<times> string) list option \<Rightarrow> http_request" where
  "HttpClient_request url json headers cookiesDict =
     (let h0 = [''Content-Type'' \<mapsto>
                  HStr (if json \<noteq> None then ''application/json''
                        else ''application/octet-stream'')] ++ headers;
          h1 = (case cookiesDict of None \<Rightarrow> h0
                | Some cs \<Rightarrow> h0(''Cookie'' \<mapsto> HStr (cookie_header cs)));
          requestData = (case json of Some j \<Rightarrow> Some (JSON_stringify j) | None \<Rightarrow> None);
          h2 = (case requestData of
                  Some d \<Rightarrow> if d \<noteq> [] then h1(''Content-Length'' \<mapsto> HNum (length d)) else h1
                | None \<Rightarrow> h1)
      in \<lparr>req_url = url, req_headers = h2, req_data = requestData\<rparr>)"

text \<open>\<open>post\<close>: the cookie jar is cleared, the request is built and sent, and a socket
  error is classified by its code.  A 200 body that is not JSON makes \<open>jsonLoads\<close> throw
  inside the same \<open>try\<close>; the error has no \<open>code\<close>, so the \<open>catch\<close> turns it into a
  \<open>KasaException\<close> that ends with its message.  With another status the parse error
  is swallowed and the response data stay \<open>null\<close>.\<close>

definition HttpClient_post ::
  "(nat \<Rightarrow> 'b net_outcome) \<Rightarrow> string \<Rightarrow> http_client \<Rightarrow> string \<Rightarrow> post_json option \<Rightarrow>
   (string \<rightharpoonup> header_value) \<Rightarrow> (string \<times> string) list option \<Rightarrow>
   http_client \<times> (exn + int \<times> 'b option)" where
  "HttpClient_post net cfg_host c url json headers cookiesDict =
     (let r = HttpClient_request url json headers cookiesDict;
          c1 = \<lparr>sent = sent c @ [r], jar = Map.empty\<rparr>
      in case net (length (sent c)) of
           NetError code msg \<Rightarrow>
             (c1, Inl (if code = ''ECONNRESET'' \<or> code = ''EPIPE''
                       then new_plain ConnectionError
                              (''Device connection error: '' @ cfg_host @ '': '' @ msg)
                       else if code = ''ETIMEDOUT''
                       then new_plain TimeoutError
                              (''Unable to query the device, timed out: '' @ cfg_host @ '': '' @ msg)
                       else new_plain KasaException
                              (''Unable to query the device: '' @ cfg_host @ '': '' @ msg)))
         | NetResponse statusCode body cookies \<Rightarrow>
             (let c2 = c1\<lparr>jar := cookies\<rparr> in
              case body of
                JsonSyntaxError msg \<Rightarrow>
                  if statusCode = 200 \<and> json \<noteq> None
                  then (c2, Inl (new_plain KasaException
                                   (''Unable to query the device: '' @ cfg_host @ '': '' @ msg)))
                  else (c2, Inr (statusCode, None))
              | JsonNull \<Rightarrow> (c2, Inr (statusCode, None))
              | JsonValue responseData \<Rightarrow> (c2, Inr (statusCode, Some responseData))))"

definition getCookie :: "http_client \<Rightarrow> string \<Rightarrow> string option" where
  "getCookie c cookieName =
     (case jar c cookieName of Some v \<Rightarrow> if v = [] then None else Some v | None \<Rightarrow> None)"


section \<open>The AES transport (src/unnamed/part_006)\<close>

type_synonym bytes = "8 word list"

datatype TransportState = HANDSHAKE_REQUIRED | LOGIN_REQUIRED | ESTABLISHED

text \<open>A response dictionary, as far as the error-code handlers read it.\<close>

record resp =
  error_code :: js

text \<open>
  \<open>result.response\<close> of a passthrough reply, by what decoding it gives: it decrypts
  under the session and parses, or it does not decrypt but is JSON itself, or neither.
\<close>

datatype 'i payload = Encrypted 'i | PlainJson 'i | Undecodable

record 'i aes_result =
  r_key :: "string option"
  r_response :: "'i payload option"

record 'i aes_body = resp +
  result :: "'i aes_result option"

record login_result =
  token :: js

record login_body = resp +
  l_result :: "login_result option"

record credentials =
  username :: string
  password :: string

record login_params =
  lp_password_field :: string
  lp_password :: string
  lp_username :: string

record AesEncryptionSession =
  aes_key :: bytes
  aes_iv :: bytes

record KeyPair =
  privateKey :: bytes
  publicKey :: bytes

datatype expiry = ExpNull | ExpAt int | ExpNaN

record AesTransport =
  host :: string
  loginVersion :: "int option"
  loginParams :: login_params
  defaultCredentials :: "credentials option"
  httpClient :: http_client
  tstate :: TransportState
  encryptionSession :: "AesEncryptionSession option"
  sessionExpireAt :: expiry
  sessionCookie :: "(string \<times> string) list option"
  keyPair :: "KeyPair option"
  appUrl :: string
  tokenUrl :: "string option"

text \<open>What the transport takes from outside: the network, the clock, and the
  cryptographic library calls.\<close>

record aes_env =
  net :: "nat \<Rightarrow> login_body aes_body net_outcome"
  now :: int
  hashCredentials :: "bool \<Rightarrow> credentials \<Rightarrow> string \<times> string"
  session_encrypt :: "AesEncryptionSession \<Rightarrow> string \<Rightarrow> string"
  decryptHandshakeKey :: "KeyPair \<Rightarrow> string \<Rightarrow> string + bytes"
  default_tapo :: credentials

text \<open>The module-level sets of part\_006 (the same two declarations open
  smartprotocol.js and smartcamprotocol.js).  \<open>SmartErrorCode.DEVICE_BUSY\<close> is not a
  field of the class, so the second member is \<open>undefined\<close>.\<close>

definition SMART_RETRYABLE_ERRORS :: "js list" where
  "SMART_RETRYABLE_ERRORS =
     [SmartErrorCode_static ''SESSION_EXPIRED'',
      SmartErrorCode_static ''DEVICE_BUSY'',
      SmartErrorCode_static ''TRANSPORT_UNKNOWN_CREDENTIALS_ERROR'']"

definition SMART_AUTHENTICATION_ERRORS :: "js list" where
  "SMART_AUTHENTICATION_ERRORS =
     [SmartErrorCode_static ''LOGIN_ERROR'',
      SmartErrorCode_static ''TRANSPORT_UNKNOWN_CREDENTIALS_ERROR'']"

definition COMMON_HEADERS :: "string \<rightharpoonup> header_value" where
  "COMMON_HEADERS = [''Content-Type'' \<mapsto> HStr ''application/json'',
                     ''requestByApp'' \<mapsto> HStr ''true'',
                     ''Accept'' \<mapsto> HStr ''application/json'']"

definition KEY_PAIR_CONTENT_LENGTH :: nat where
  "KEY_PAIR_CONTENT_LENGTH = 314"

definition ONE_DAY_SECONDS :: int where
  "ONE_DAY_SECONDS = 86400"

definition SESSION_EXPIRE_BUFFER_SECONDS :: int where
  "SESSION_EXPIRE_BUFFER_SECONDS = 60 * 20"

definition error_code_text :: "js \<Rightarrow> string" where
  "error_code_text errorCode =
     js_to_string (js_name errorCode) @ ''('' @ js_to_string (js_value errorCode) @ '')''"

text \<open>\<open>_handleResponseErrorCode\<close> (lines 179-199).  \<open>fromInt\<close> never throws, so the
  \<open>catch\<close> arm is dead.\<close>

definition AesTransport_handleResponseErrorCode ::
  "AesTransport \<Rightarrow> 'a resp_scheme \<Rightarrow> string \<Rightarrow> AesTransport \<times> (exn + unit)" where
  "AesTransport_handleResponseErrorCode t respDict msg =
     (let errorCodeRaw = error_code respDict;
          errorCode = SmartErrorCode_fromInt errorCodeRaw
      in if strict_eq errorCode (SmartErrorCode_static ''SUCCESS'') then (t, Inr ())
         else
           (let message = msg @ '': '' @ host t @ '': '' @ error_code_text errorCode
            in if js_has SMART_RETRYABLE_ERRORS errorCode
               then (t, Inl (new_device_error RetryableError message errorCode))
               else if js_has SMART_AUTHENTICATION_ERRORS errorCode
               then (t\<lparr>tstate := HANDSHAKE_REQUIRED\<rparr>,
                     Inl (new_device_error AuthenticationError message errorCode))
               else (t, Inl (new_device_error DeviceError message errorCode))))"


definition AesTransport_post ::
  "aes_env \<Rightarrow> AesTransport \<Rightarrow> string \<Rightarrow> post_json \<Rightarrow> (string \<rightharpoonup> header_value) \<Rightarrow>
   AesTransport \<times> (exn + int \<times> login_body aes_body option)" where
  "AesTransport_post env t url json headers =
     (let (c, r) = HttpClient_post (net env) (host t) (httpClient t) url (Some json) headers
                     (sessionCookie t)
      in (t\<lparr>httpClient := c\<rparr>, r))"






text \<open>\<open>parseInt\<close> on a cookie value: an optional sign and the leading decimal digits;
  \<open>None\<close> is \<open>NaN\<close>.\<close>

definition is_digit :: "char \<Rightarrow> bool" where
  "is_digit c = ((48::nat) \<le> of_char c \<and> (of_char c :: nat) \<le> 57)"

definition digits_val :: "string \<Rightarrow> int" where
  "digits_val ds = foldl (\<lambda>acc c. 10 * acc + (int (of_char c) - 48)) 0 ds"

definition parseInt :: "string \<Rightarrow> int option" where
  "parseInt s =
     (let body = (if s \<noteq> [] \<and> (hd s = CHR ''-'' \<or> hd s = CHR ''+'') then tl s else s);
          ds = takeWhile is_digit body
      in if ds = [] then None
         else Some (if s \<noteq> [] \<and> hd s = CHR ''-'' then - digits_val ds else digits_val ds))"

text \<open>\<open>AesEncryptionSession.createFromKeypair\<close> (lines 445-452): a \<open>null\<close> key pair
  or an \<open>undefined\<close> handshake key is a \<open>TypeError\<close>; \<open>privateDecrypt\<close> returns a
  buffer or throws an \<open>Error\<close> with its own message, so that \<open>!keyAndIv\<close> never
  holds.\<close>

definition createFromKeypair ::
  "aes_env \<Rightarrow> string option \<Rightarrow> KeyPair option \<Rightarrow> exn + AesEncryptionSession" where
  "createFromKeypair env handshakeKey keypair =
     (case handshakeKey of
        None \<Rightarrow> Inl (new_plain TypeError (''The first argument must be of type string or an instance of Buffer, ''
                       @ ''ArrayBuffer, or Array or an Array-like Object. Received undefined''))
      | Some k \<Rightarrow>
          (case keypair of
             None \<Rightarrow> Inl (new_plain TypeError
                      ''Cannot read properties of null (reading 'decryptHandshakeKey')'')
           | Some kp \<Rightarrow>
               (case decryptHandshakeKey env kp k of
                  Inl msg \<Rightarrow> Inl (new_plain PlainError msg)
                | Inr keyAndIv \<Rightarrow>
                    Inr \<lparr>aes_key = take 16 keyAndIv, aes_iv = drop 16 keyAndIv\<rparr>)))"

definition handshake_headers :: "string \<rightharpoonup> header_value" where
  "handshake_headers =
     COMMON_HEADERS ++ [''Content-Length'' \<mapsto> HStr (show_int (int KEY_PAIR_CONTENT_LENGTH))]"

text \<open>\<open>performHandshake\<close> (lines 330-380).  The \<open>json\<close> option is
  \<open>this._generateKeyPairPayload()\<close>: the call of an \<open>async function*\<close>, which builds
  the generator object and runs none of its body.\<close>

definition performHandshake :: "aes_env \<Rightarrow> AesTransport \<Rightarrow> AesTransport \<times> (exn + unit)" where
  "performHandshake env t =
     (let t0 = t\<lparr>tokenUrl := None, sessionExpireAt := ExpNull, sessionCookie := None\<rparr>;
          (t1, r) = AesTransport_post env t0 (appUrl t0) AsyncGeneratorObject handshake_headers
      in case r of
           Inl e \<Rightarrow> (t1, Inl e)
         | Inr (statusCode, body) \<Rightarrow>
             if statusCode \<noteq> 200
             then (t1, Inl (new_plain KasaException
                     (host t1 @ '' responded with an unexpected status code ''
                        @ show_int statusCode @ '' to handshake'')))
             else
               (case body of
                  None \<Rightarrow> (t1, Inl (new_plain TypeError
                            ''Cannot read properties of null (reading 'error_code')''))
                | Some respDict \<Rightarrow>
                    (case AesTransport_handleResponseErrorCode t1 respDict
                            ''Unable to complete handshake'' of
                       (t2, Inl e) \<Rightarrow> (t2, Inl e)
                     | (t2, Inr _) \<Rightarrow>
                         (case result respDict of
                            None \<Rightarrow> (t2, Inl (new_plain TypeError
                              ''Cannot read properties of undefined (reading 'key')''))
                          | Some res \<Rightarrow>
                              (let handshakeKey = r_key res;
                                   cookie = (case getCookie (httpClient t2) ''TP_SESSIONID'' of
                                               Some c \<Rightarrow> Some c
                                             | None \<Rightarrow> getCookie (httpClient t2) ''SESSIONID'');
                                   t3 = (case cookie of
                                           Some c \<Rightarrow>
                                             t2\<lparr>sessionCookie := Some [(''TP_SESSIONID'', c)]\<rparr>
                                         | None \<Rightarrow> t2);
                                   timeout = parseInt
                                     (case getCookie (httpClient t3) ''TIMEOUT'' of
                                        Some c \<Rightarrow> c
                                      | None \<Rightarrow> show_int ONE_DAY_SECONDS);
                                   t4 = t3\<lparr>sessionExpireAt :=
                                          (case timeout of
                                             None \<Rightarrow> ExpNaN
                                           | Some n \<Rightarrow>
                                               ExpAt (now env + n * 1000
                                                        - SESSION_EXPIRE_BUFFER_SECONDS * 1000))\<rparr>
                               in case createFromKeypair env handshakeKey (keyPair t4) of
                                    Inl e \<Rightarrow> (t4, Inl e)
                                  | Inr session \<Rightarrow>
                                      (t4\<lparr>encryptionSession := Some session,
                                          tstate := LOGIN_REQUIRED\<rparr>, Inr ()))))))"












section \<open>The Smart and SmartCam protocols (src/kasa/protocols)\<close>

text \<open>
  A result object as the pagination code reads it: whether it has a \<open>start_index\<close>
  member, its \<open>sum\<close> member (an integer on the wire; \<open>None\<close> when absent) and its
  array-valued members in key order.  The \<open>result\<close> member of a reply is absent, such an
  object, or the error-code object a handler stored there.
\<close>

record 'a smart_result =
  has_start_index :: bool
  r_sum :: "int option"
  r_lists :: "(string \<times> 'a list) list"

datatype 'a rvalue = RUndefined | RNull | RObj "'a smart_result" | RErr js

record 'a reply = resp +
  reply_method :: "string option"
  reply_result :: "'a rvalue"

record 'a batch_reply = "'a reply" +
  responses :: "'a reply list option"

text \<open>\<open>SmartProtocol._handleResponseErrorCode\<close> (smartprotocol.js, lines 422-449):
  the comparisons read \<open>errorCode.value\<close>.\<close>

definition SmartProtocol_handleResponseErrorCode ::
  "string \<Rightarrow> ('a, 'z) reply_scheme \<Rightarrow> string \<Rightarrow> bool \<Rightarrow> exn + ('a, 'z) reply_scheme" where
  "SmartProtocol_handleResponseErrorCode hst respDict meth raiseOnError =
     (let errorCodeRaw = error_code respDict;
          errorCode = SmartErrorCode_fromInt errorCodeRaw
      in if strict_eq (js_value errorCode) (SmartErrorCode_static ''SUCCESS'') then Inr respDict
         else if \<not> raiseOnError then Inr (respDict\<lparr>reply_result := RErr errorCode\<rparr>)
         else
           (let msg = ''Error querying device: '' @ hst @ '': '' @ error_code_text errorCode
                        @ '' for method: '' @ meth
            in if js_has SMART_RETRYABLE_ERRORS (js_value errorCode)
               then Inl (new_device_error RetryableError msg errorCode)
               else if js_has SMART_AUTHENTICATION_ERRORS (js_value errorCode)
               then Inl (new_device_error AuthenticationError msg errorCode)
               else Inl (new_device_error DeviceError msg errorCode)))"

text \<open>\<open>SmartCamProtocol._handleResponseErrorCode\<close> (smartcamprotocol.js, lines 85-112):
  the override compares and looks up the object \<open>errorCode\<close> itself.\<close>

definition SmartCamProtocol_handleResponseErrorCode ::
  "string \<Rightarrow> ('a, 'z) reply_scheme \<Rightarrow> string \<Rightarrow> bool \<Rightarrow> exn + ('a, 'z) reply_scheme" where
  "SmartCamProtocol_handleResponseErrorCode hst respDict meth raiseOnError =
     (let errorCodeRaw = error_code respDict;
          errorCode = SmartErrorCode_fromInt errorCodeRaw
      in if strict_eq errorCode (SmartErrorCode_static ''SUCCESS'') then Inr respDict
         else if \<not> raiseOnError then Inr (respDict\<lparr>reply_result := RErr errorCode\<rparr>)
         else
           (let msg = ''Error querying device: '' @ hst @ '': '' @ error_code_text errorCode
                        @ '' for method: '' @ meth
            in if js_has SMART_RETRYABLE_ERRORS errorCode
               then Inl (new_device_error RetryableError msg errorCode)
               else if js_has SMART_AUTHENTICATION_ERRORS errorCode
               then Inl (new_device_error AuthenticationError msg errorCode)
               else Inl (new_device_error DeviceError msg errorCode)))"


subsection \<open>SmartProtocol queries (smartprotocol.js)\<close>

text \<open>
  Request parameters: a caller's own (opaque here) or the \<open>{start_index: n}\<close> object of
  a page request; \<open>None\<close> stands for a missing or falsy \<open>params\<close>.  What goes to the
  transport is a single method call or a \<open>multipleRequest\<close> with its batch.
\<close>

datatype 'p req_params = Params 'p | StartIndex nat

datatype 'p wire =
    WSingle string "'p req_params option"
  | WMulti "(string \<times> 'p req_params option) list"

datatype 'p request = ReqString string | ReqObject "(string \<times> 'p req_params option) list"

text \<open>The protocol instance.  \<open>sp_sent\<close> is the log of what went through
  \<open>this._transport.send\<close> and \<open>sp_events\<close> the log of transport resets and of
  sleeps (in milliseconds); the \<open>k\<close>-th send gets the \<open>k\<close>-th answer of the
  transport.\<close>

datatype event = Send nat | Reset | Sleep nat

record 'p SmartProtocol =
  sp_host :: string
  multiRequestBatchSize :: nat
  methodMissingLogged :: bool
  sp_sent :: "'p wire list"
  sp_events :: "event list"

type_synonym 'a transport = "nat \<Rightarrow> exn + 'a batch_reply"

type_synonym 'a handler =
  "string \<Rightarrow> 'a batch_reply \<Rightarrow> string \<Rightarrow> bool \<Rightarrow> exn + 'a batch_reply"

type_synonym 'a sub_handler =
  "string \<Rightarrow> 'a reply \<Rightarrow> string \<Rightarrow> bool \<Rightarrow> exn + 'a reply"

definition DEFAULT_MULTI_REQUEST_BATCH_SIZE :: nat where
  "DEFAULT_MULTI_REQUEST_BATCH_SIZE = 5"

text \<open>The constructor (lines 115-123): \<open>config.batchSize || 5\<close>.\<close>

definition new_SmartProtocol :: "string \<Rightarrow> nat option \<Rightarrow> 'p SmartProtocol" where
  "new_SmartProtocol h batchSize =
     \<lparr>sp_host = h,
      multiRequestBatchSize =
        (case batchSize of
           Some b \<Rightarrow> if b \<noteq> 0 then b else DEFAULT_MULTI_REQUEST_BATCH_SIZE
         | None \<Rightarrow> DEFAULT_MULTI_REQUEST_BATCH_SIZE),
      methodMissingLogged = False,
      sp_sent = [],
      sp_events = []\<rparr>"

definition FORCE_SINGLE_REQUEST :: "string list" where
  "FORCE_SINGLE_REQUEST = [''getConnectStatus'', ''scanApList'']"

definition transport_send ::
  "'a transport \<Rightarrow> 'p SmartProtocol \<Rightarrow> 'p wire \<Rightarrow> 'p SmartProtocol \<times> (exn + 'a batch_reply)" where
  "transport_send tr p w = (p\<lparr>sp_sent := sp_sent p @ [w]\<rparr>, tr (length (sp_sent p)))"

text \<open>Property assignment on the result object \<open>multiResult\<close>: a present key keeps its
  place, a new one goes last.\<close>

fun obj_set :: "(string \<times> 'v) list \<Rightarrow> string \<Rightarrow> 'v \<Rightarrow> (string \<times> 'v) list" where
  "obj_set [] k v = [(k, v)]"
| "obj_set ((k', v') # rest) k v =
     (if k' = k then (k, v) # rest else (k', v') # obj_set rest k v)"

text \<open>
  A page request: \<open>_executeQuery\<close> with the one-key object \<open>{method: {start_index}}\<close>
  and \<open>iterateListPages: false\<close> (lines 332-362), read at \<open>response[method]\<close>.
\<close>

definition executeQuery_page ::
  "'a transport \<Rightarrow> 'a handler \<Rightarrow> 'p SmartProtocol \<Rightarrow> string \<Rightarrow> nat \<Rightarrow>
   'p SmartProtocol \<times> (exn + 'a rvalue)" where
  "executeQuery_page tr handle p smartMethod startIndex =
     (case transport_send tr p (WSingle smartMethod (Some (StartIndex startIndex))) of
        (p1, Inl e) \<Rightarrow> (p1, Inl e)
      | (p1, Inr responseData) \<Rightarrow>
          (case handle (sp_host p1) responseData smartMethod True of
             Inl e \<Rightarrow> (p1, Inl e)
           | Inr responseData' \<Rightarrow> (p1, Inr (reply_result responseData'))))"

text \<open>
  The \<open>while\<close> loop of \<open>_handleResponseLists\<close> (lines 399-411) on the list
  \<open>responseResult[responseListName]\<close>.  Reading \<open>nextBatch[responseListName]\<close> off an
  \<open>undefined\<close> or \<open>null\<close> result is a \<open>TypeError\<close>; a member that is missing or an
  empty array ends the loop.
\<close>

function handleResponseLists_loop ::
  "'a transport \<Rightarrow> 'a handler \<Rightarrow> string \<Rightarrow> string \<Rightarrow> int \<Rightarrow> 'p SmartProtocol \<Rightarrow> 'a list \<Rightarrow>
   'p SmartProtocol \<times> (exn + 'a list)" where
  "handleResponseLists_loop tr handle meth responseListName n_sum p lst =
     (if int (length lst) < n_sum then
        (case executeQuery_page tr handle p meth (length lst) of
           (p1, Inl e) \<Rightarrow> (p1, Inl e)
         | (p1, Inr nextBatch) \<Rightarrow>
             (case nextBatch of
                RUndefined \<Rightarrow> (p1, Inl (new_plain TypeError
                   (''Cannot read properties of undefined (reading '' @ [CHR 0x27]
                      @ responseListName @ [CHR 0x27] @ '')'')))
              | RNull \<Rightarrow> (p1, Inl (new_plain TypeError
                   (''Cannot read properties of null (reading '' @ [CHR 0x27]
                      @ responseListName @ [CHR 0x27] @ '')'')))
              | RErr _ \<Rightarrow> (p1, Inr lst)
              | RObj r \<Rightarrow>
                  (case map_of (r_lists r) responseListName of
                     None \<Rightarrow> (p1, Inr lst)
                   | Some page \<Rightarrow>
                       if page = [] then (p1, Inr lst)
                       else handleResponseLists_loop tr handle meth responseListName n_sum p1
                              (lst @ page))))
      else (p, Inr lst))"
  by pat_completeness auto
termination
  by (relation "measure (\<lambda>(tr, handle, meth, responseListName, n_sum, p, lst).
                  nat (n_sum - int (length lst)))") auto

declare handleResponseLists_loop.simps [simp del]

text \<open>\<open>_handleResponseLists\<close> (lines 386-412).  The result object is updated in
  place; the model returns it.  The list is the first array-valued member; when its key
  is the empty string, \<open>!responseListName\<close> holds and nothing is requested.\<close>

definition handleResponseLists ::
  "'a transport \<Rightarrow> 'a handler \<Rightarrow> 'p SmartProtocol \<Rightarrow> 'a rvalue \<Rightarrow> string \<Rightarrow>
   'p SmartProtocol \<times> (exn + 'a rvalue)" where
  "handleResponseLists tr handle p responseResult meth =
     (case responseResult of
        RObj r \<Rightarrow>
          if \<not> has_start_index r \<or> r_sum r = None \<or> r_sum r = Some 0 then (p, Inr responseResult)
          else
            (case r_lists r of
               [] \<Rightarrow> (p, Inr responseResult)
             | (responseListName, lst) # others \<Rightarrow>
                 if responseListName = [] then (p, Inr responseResult)
                 else
                   (case handleResponseLists_loop tr handle meth responseListName
                           (case r_sum r of Some n \<Rightarrow> n | None \<Rightarrow> 0) p lst of
                      (p1, Inl e) \<Rightarrow> (p1, Inl e)
                    | (p1, Inr lst') \<Rightarrow>
                        (p1, Inr (RObj (r\<lparr>r_lists := (responseListName, lst') # others\<rparr>)))))
      | _ \<Rightarrow> (p, Inr responseResult))"





text \<open>\<open>_executeMultipleQuery\<close> (lines 222-321), loop by loop.  First the loop taken
  when the batch size is 1 (lines 242-250).\<close>

fun single_requests_loop ::
  "'a transport \<Rightarrow> 'a handler \<Rightarrow> bool \<Rightarrow> 'p SmartProtocol \<Rightarrow> (string \<times> 'a rvalue) list \<Rightarrow>
   (string \<times> 'p req_params option) list \<Rightarrow>
   'p SmartProtocol \<times> (exn + (string \<times> 'a rvalue) list)" where
  "single_requests_loop tr handle raiseOnError p multiResult [] = (p, Inr multiResult)"
| "single_requests_loop tr handle raiseOnError p multiResult ((meth, params) # rest) =
     (case transport_send tr p (WSingle meth params) of
        (p1, Inl e) \<Rightarrow> (p1, Inl e)
      | (p1, Inr resp) \<Rightarrow>
          (case handle (sp_host p1) resp meth raiseOnError of
             Inl e \<Rightarrow> (p1, Inl e)
           | Inr resp' \<Rightarrow>
               single_requests_loop tr handle raiseOnError p1
                 (obj_set multiResult meth (reply_result resp')) rest))"

text \<open>Lines 254-257: \<open>for (let i = 0; i < requestCount; i += step)\<close>.  A step of 0 is
  never stored (the constructor replaces a falsy batch size by 5, line 275 stores 1); the
  JavaScript loop would not end on it, the model stops.\<close>

function make_batches :: "nat \<Rightarrow> nat \<Rightarrow> nat \<Rightarrow> 'x list \<Rightarrow> 'x list list" where
  "make_batches i requestCount step xs =
     (if i < requestCount \<and> 0 < step
      then take step (drop i xs) # make_batches (i + step) requestCount step xs
      else [])"
  by pat_completeness auto
termination
  by (relation "measure (\<lambda>(i, requestCount, step, xs). requestCount - i)") auto

declare make_batches.simps [simp del]

text \<open>Lines 284-306: the sub-responses of one batch.\<close>

fun responses_loop ::
  "'a transport \<Rightarrow> 'a handler \<Rightarrow> 'a sub_handler \<Rightarrow> bool \<Rightarrow> bool \<Rightarrow> 'p SmartProtocol \<Rightarrow>
   (string \<times> 'a rvalue) list \<Rightarrow> 'a reply list \<Rightarrow>
   'p SmartProtocol \<times> (exn + (string \<times> 'a rvalue) list)" where
  "responses_loop tr handle sub_handle raiseOnError iterateListPages p multiResult [] =
     (p, Inr multiResult)"
| "responses_loop tr handle sub_handle raiseOnError iterateListPages p multiResult
     (response # rest) =
     (case (case reply_method response of None \<Rightarrow> None
            | Some m \<Rightarrow> if m = [] then None else Some m) of
        None \<Rightarrow>
          responses_loop tr handle sub_handle raiseOnError iterateListPages
            (if \<not> methodMissingLogged p then p\<lparr>methodMissingLogged := True\<rparr> else p)
            multiResult rest
      | Some meth \<Rightarrow>
          (case sub_handle (sp_host p) response meth raiseOnError of
             Inl e \<Rightarrow> (p, Inl e)
           | Inr response' \<Rightarrow>
               (let res = (case reply_result response' of RUndefined \<Rightarrow> RNull | r \<Rightarrow> r)
                in if iterateListPages \<and> res \<noteq> RNull
                   then (case handleResponseLists tr handle p res meth of
                           (p1, Inl e) \<Rightarrow> (p1, Inl e)
                         | (p1, Inr res') \<Rightarrow>
                             responses_loop tr handle sub_handle raiseOnError iterateListPages
                               p1 (obj_set multiResult meth res') rest)
                   else responses_loop tr handle sub_handle raiseOnError iterateListPages
                          p (obj_set multiResult meth res) rest)))"

definition batch_name :: "nat \<Rightarrow> nat \<Rightarrow> string" where
  "batch_name batchNum n =
     ''multi-request-batch-'' @ show_nat (batchNum + 1) @ ''-of-'' @ show_nat n"

text \<open>Lines 259-307: one \<open>multipleRequest\<close> per batch; the \<open>catch\<close> of lines 268-281
  is the batch demotion.\<close>

fun batches_loop ::
  "'a transport \<Rightarrow> 'a handler \<Rightarrow> 'a sub_handler \<Rightarrow> bool \<Rightarrow> bool \<Rightarrow> nat \<Rightarrow> nat \<Rightarrow>
   'p SmartProtocol \<Rightarrow> (string \<times> 'a rvalue) list \<Rightarrow>
   (string \<times> 'p req_params option) list list \<Rightarrow>
   'p SmartProtocol \<times> (exn + (string \<times> 'a rvalue) list)" where
  "batches_loop tr handle sub_handle raiseOnError iterateListPages n batchNum p multiResult [] =
     (p, Inr multiResult)"
| "batches_loop tr handle sub_handle raiseOnError iterateListPages n batchNum p multiResult
     (requestsStep # rest) =
     (case transport_send tr p (WMulti requestsStep) of
        (p1, Inl e) \<Rightarrow> (p1, Inl e)
      | (p1, Inr responseStep) \<Rightarrow>
          (case handle (sp_host p1) responseStep (batch_name batchNum n) True of
             Inl error \<Rightarrow>
               if instanceof error DeviceError
                  \<and> js_has [SmartErrorCode_static ''JSON_DECODE_FAIL_ERROR'',
                             SmartErrorCode_static ''INTERNAL_UNKNOWN_ERROR'']
                        (exn_errorCode error)
                  \<and> multiRequestBatchSize p1 \<noteq> 1
               then (p1\<lparr>multiRequestBatchSize := 1\<rparr>,
                     Inl (new_device_error RetryableError
                            ''JSON Decode failure, multi requests disabled'' JUndefined))
               else (p1, Inl error)
           | Inr responseStep' \<Rightarrow>
               (case responses responseStep' of
                  None \<Rightarrow> (p1, Inl (new_plain TypeError ''undefined is not iterable''))
                | Some rs \<Rightarrow>
                    (case responses_loop tr handle sub_handle raiseOnError iterateListPages
                            p1 multiResult rs of
                       (p2, Inl e) \<Rightarrow> (p2, Inl e)
                     | (p2, Inr multiResult') \<Rightarrow>
                         batches_loop tr handle sub_handle raiseOnError iterateListPages n
                           (batchNum + 1) p2 multiResult' rest))))"

text \<open>Lines 311-319: every method still missing from \<open>multiResult\<close> is asked singly.\<close>

fun requery_loop ::
  "'a transport \<Rightarrow> 'a handler \<Rightarrow> bool \<Rightarrow> 'p SmartProtocol \<Rightarrow> (string \<times> 'a rvalue) list \<Rightarrow>
   (string \<times> 'p req_params option) list \<Rightarrow>
   'p SmartProtocol \<times> (exn + (string \<times> 'a rvalue) list)" where
  "requery_loop tr handle raiseOnError p multiResult [] = (p, Inr multiResult)"
| "requery_loop tr handle raiseOnError p multiResult ((meth, params) # rest) =
     (if meth \<in> fst ` set multiResult
      then requery_loop tr handle raiseOnError p multiResult rest
      else
        (case transport_send tr p (WSingle meth params) of
           (p1, Inl e) \<Rightarrow> (p1, Inl e)
         | (p1, Inr resp) \<Rightarrow>
             (case handle (sp_host p1) resp meth raiseOnError of
                Inl e \<Rightarrow> (p1, Inl e)
              | Inr resp' \<Rightarrow>
                  requery_loop tr handle raiseOnError p1
                    (obj_set multiResult meth (reply_result resp')) rest)))"

definition executeMultipleQuery ::
  "'a transport \<Rightarrow> 'a handler \<Rightarrow> 'a sub_handler \<Rightarrow> 'p SmartProtocol \<Rightarrow>
   (string \<times> 'p req_params option) list \<Rightarrow> bool \<Rightarrow>
   'p SmartProtocol \<times> (exn + (string \<times> 'a rvalue) list)" where
  "executeMultipleQuery tr handle sub_handle p requests iterateListPages =
     (let requestCount = length requests;
          raiseOnError = (requestCount = 1);
          multiRequests = filter (\<lambda>(meth, params). meth \<notin> set FORCE_SINGLE_REQUEST) requests;
          step = multiRequestBatchSize p
      in if step = 1 then single_requests_loop tr handle raiseOnError p [] multiRequests
         else
           (let batches = make_batches 0 requestCount step multiRequests
            in case batches_loop tr handle sub_handle raiseOnError iterateListPages
                      (length batches) 0 p [] batches of
                 (p1, Inl e) \<Rightarrow> (p1, Inl e)
               | (p1, Inr multiResult) \<Rightarrow>
                   requery_loop tr handle raiseOnError p1 multiResult requests))"

text \<open>A handler none of whose errors carries one of the two numbers of the demotion
  test as its \<open>errorCode\<close>.\<close>

definition never_demotes :: "'a handler \<Rightarrow> bool" where
  "never_demotes handle =
     (\<forall>h r m b e. handle h r m b = Inl e \<longrightarrow>
        \<not> js_has [SmartErrorCode_static ''JSON_DECODE_FAIL_ERROR'',
                   SmartErrorCode_static ''INTERNAL_UNKNOWN_ERROR''] (exn_errorCode e))"

text \<open>\<open>_executeQuery\<close> (lines 332-362).\<close>

definition executeQuery ::
  "'a transport \<Rightarrow> 'a handler \<Rightarrow> 'a sub_handler \<Rightarrow> 'p SmartProtocol \<Rightarrow> 'p request \<Rightarrow> bool \<Rightarrow>
   'p SmartProtocol \<times> (exn + (string \<times> 'a rvalue) list)" where
  "executeQuery tr handle sub_handle p request iterateListPages =
     (let single = (\<lambda>smartMethod smartParams.
            case transport_send tr p (WSingle smartMethod smartParams) of
              (p1, Inl e) \<Rightarrow> (p1, Inl e)
            | (p1, Inr responseData) \<Rightarrow>
                (case handle (sp_host p1) responseData smartMethod True of
                   Inl e \<Rightarrow> (p1, Inl e)
                 | Inr responseData' \<Rightarrow>
                     (let res = reply_result responseData'
                      in if iterateListPages \<and> res \<noteq> RUndefined \<and> res \<noteq> RNull
                         then (case handleResponseLists tr handle p1 res smartMethod of
                                 (p2, Inl e) \<Rightarrow> (p2, Inl e)
                               | (p2, Inr res') \<Rightarrow> (p2, Inr [(smartMethod, res')]))
                         else (p1, Inr [(smartMethod, res)]))))
      in case request of
           ReqString m \<Rightarrow> single m None
         | ReqObject [(smartMethod, smartParams)] \<Rightarrow> single smartMethod smartParams
         | ReqObject requests \<Rightarrow>
             executeMultipleQuery tr handle sub_handle p requests iterateListPages)"


definition BACKOFF_SECONDS_AFTER_TIMEOUT :: nat where
  "BACKOFF_SECONDS_AFTER_TIMEOUT = 1"

definition unreachable_error :: exn where
  "unreachable_error = new_plain KasaException ''Query reached somehow to unreachable''"

definition sp_reset :: "'p SmartProtocol \<Rightarrow> 'p SmartProtocol" where
  "sp_reset p = p\<lparr>sp_events := sp_events p @ [Reset]\<rparr>"

definition sp_sleep :: "nat \<Rightarrow> 'p SmartProtocol \<Rightarrow> 'p SmartProtocol" where
  "sp_sleep ms p = p\<lparr>sp_events := sp_events p @ [Sleep ms]\<rparr>"

text \<open>\<open>SmartProtocol._query\<close> (lines 170-212).\<close>

function SmartProtocol_query_loop ::
  "'a transport \<Rightarrow> 'a handler \<Rightarrow> 'a sub_handler \<Rightarrow> 'p request \<Rightarrow> int \<Rightarrow> 'p SmartProtocol \<Rightarrow> nat \<Rightarrow>
   'p SmartProtocol \<times> (exn + (string \<times> 'a rvalue) list)" where
  "SmartProtocol_query_loop tr handle sub_handle request retryCount p retry =
     (if int retry \<le> retryCount then
        (case executeQuery tr handle sub_handle p request True of
           (p1, Inr r) \<Rightarrow> (p1, Inr r)
         | (p1, Inl error) \<Rightarrow>
             if instanceof error ConnectionError then
               (if int retry \<ge> retryCount then (p1, Inl error)
                else SmartProtocol_query_loop tr handle sub_handle request retryCount p1
                       (retry + 1))
             else if instanceof error AuthenticationError then (sp_reset p1, Inl error)
             else if instanceof error RetryableError then
               (if int retry \<ge> retryCount then (sp_reset p1, Inl error)
                else SmartProtocol_query_loop tr handle sub_handle request retryCount
                       (sp_sleep (BACKOFF_SECONDS_AFTER_TIMEOUT * 1000) (sp_reset p1))
                       (retry + 1))
             else if instanceof error TimeoutError then
               (if int retry \<ge> retryCount then (sp_reset p1, Inl error)
                else SmartProtocol_query_loop tr handle sub_handle request retryCount
                       (sp_sleep (BACKOFF_SECONDS_AFTER_TIMEOUT * 1000) (sp_reset p1))
                       (retry + 1))
             else if instanceof error KasaException then (sp_reset p1, Inl error)
             else (sp_reset p1, Inl error))
      else (p, Inl unreachable_error))"
  by pat_completeness auto
termination
  by (relation "measure (\<lambda>(tr, handle, sub_handle, request, retryCount, p, retry).
                  nat (retryCount + 1 - int retry))") auto

declare SmartProtocol_query_loop.simps [simp del]

definition SmartProtocol_query ::
  "'a transport \<Rightarrow> 'a handler \<Rightarrow> 'a sub_handler \<Rightarrow> 'p SmartProtocol \<Rightarrow> 'p request \<Rightarrow> int \<Rightarrow>
   'p SmartProtocol \<times> (exn + (string \<times> 'a rvalue) list)" where
  "SmartProtocol_query tr handle sub_handle p request retryCount =
     SmartProtocol_query_loop tr handle sub_handle request retryCount p 0"

section \<open>The IoT protocol (src/unnamed/part\_014)\<close>

text \<open>
  \<open>IotProtocol._query\<close> (lines 106-141).  The transport answers the \<open>k\<close>-th
  \<open>send\<close> with \<open>tr k\<close>; one \<open>send\<close> is made per turn of the loop, so the turn number
  is the send number.  The result carries the log of what the loop did to the transport
  and to the clock: \<open>Send k\<close>, \<open>Reset\<close> for \<open>this._transport.reset()\<close>, and
  \<open>Sleep ms\<close> for the \<open>setTimeout\<close> wait.  An error that matches no \<open>instanceof\<close>
  test leaves the \<open>catch\<close> block at its end and the \<open>for\<close> loop goes on.
\<close>

definition log_more :: "event list \<Rightarrow> event list \<times> 'x \<Rightarrow> event list \<times> 'x" where
  "log_more es r = (es @ fst r, snd r)"

function IotProtocol_query_loop ::
  "(nat \<Rightarrow> exn + 'r) \<Rightarrow> int \<Rightarrow> nat \<Rightarrow> event list \<times> (exn + 'r)" where
  "IotProtocol_query_loop tr retryCount retry =
     (if int retry \<le> retryCount then
        (case tr retry of
           Inr resp \<Rightarrow> ([Send retry], Inr resp)
         | Inl error \<Rightarrow>
             if instanceof error ConnectionError then
               (if int retry \<ge> retryCount then ([Send retry], Inl error)
                else log_more [Send retry] (IotProtocol_query_loop tr retryCount (retry + 1)))
             else if instanceof error AuthenticationError then
               ([Send retry, Reset], Inl error)
             else if instanceof error RetryableError then
               (if int retry \<ge> retryCount then ([Send retry, Reset], Inl error)
                else log_more [Send retry, Reset]
                       (IotProtocol_query_loop tr retryCount (retry + 1)))
             else if instanceof error TimeoutError then
               (if int retry \<ge> retryCount then ([Send retry, Reset], Inl error)
                else log_more [Send retry, Reset, Sleep (BACKOFF_SECONDS_AFTER_TIMEOUT * 1000)]
                       (IotProtocol_query_loop tr retryCount (retry + 1)))
             else if instanceof error KasaException then
               ([Send retry, Reset], Inl error)
             else log_more [Send retry] (IotProtocol_query_loop tr retryCount (retry + 1)))
      else ([], Inl unreachable_error))"
  by pat_completeness auto
termination
  by (relation "measure (\<lambda>(tr, retryCount, retry). nat (retryCount + 1 - int retry))") auto

declare IotProtocol_query_loop.simps [simp del]

definition IotProtocol_query :: "(nat \<Rightarrow> exn + 'r) \<Rightarrow> int \<Rightarrow> event list \<times> (exn + 'r)" where
  "IotProtocol_query tr retryCount = IotProtocol_query_loop tr retryCount 0"

text \<open>The send numbers in a log, and the error kinds the loop retries.\<close>

fun sends :: "event list \<Rightarrow> nat list" where
  "sends [] = []"
| "sends (Send k # es) = k # sends es"
| "sends (e # es) = sends es"

definition retryable_kind :: "exn \<Rightarrow> bool" where
  "retryable_kind e =
     (instanceof e TimeoutError \<or> instanceof e ConnectionError \<or> instanceof e RetryableError)"


section \<open>UTF-8 in \<open>Buffer.from\<close> and \<open>toString\<close>\<close>

text \<open>
  A JavaScript string is a sequence of 16-bit code units.  \<open>Buffer.from(s, 'utf8')\<close>
  encodes it to UTF-8, pairing surrogates and writing U+FFFD (\<open>EF BF BD\<close>) for a
  surrogate that has no partner; \<open>buf.toString('utf8')\<close> decodes, writing U+FFFD for
  every ill-formed sequence.  Both are given on numbers first and on machine words after.
\<close>

type_synonym js_string = "16 word list"

fun utf8_encode_units :: "nat list \<Rightarrow> nat list" where
  "utf8_encode_units [] = []"
| "utf8_encode_units (u # us) =
     (if u < 0x80 then u # utf8_encode_units us
      else if u < 0x800 then (0xC0 + u div 64) # (0x80 + u mod 64) # utf8_encode_units us
      else if 0xD800 \<le> u \<and> u < 0xDC00 then
        (case us of
           [] \<Rightarrow> [0xEF, 0xBF, 0xBD]
         | v # vs \<Rightarrow>
             if 0xDC00 \<le> v \<and> v < 0xE000 then
               (let cp = 0x10000 + (u - 0xD800) * 1024 + (v - 0xDC00)
                in (0xF0 + cp div 262144) # (0x80 + (cp div 4096) mod 64)
                     # (0x80 + (cp div 64) mod 64) # (0x80 + cp mod 64)
                     # utf8_encode_units vs)
             else 0xEF # 0xBF # 0xBD # utf8_encode_units us)
      else if 0xDC00 \<le> u \<and> u < 0xE000 then 0xEF # 0xBF # 0xBD # utf8_encode_units us
      else (0xE0 + u div 4096) # (0x80 + (u div 64) mod 64) # (0x80 + u mod 64)
             # utf8_encode_units us)"

definition is_cont :: "nat \<Rightarrow> bool" where
  "is_cont b = (0x80 \<le> b \<and> b \<le> 0xBF)"

fun utf8_decode_bytes :: "nat list \<Rightarrow> nat list" where
  "utf8_decode_bytes [] = []"
| "utf8_decode_bytes (b0 # bs) =
     (if b0 < 0x80 then b0 # utf8_decode_bytes bs
      else if 0xC2 \<le> b0 \<and> b0 \<le> 0xDF then
        (case bs of
           [] \<Rightarrow> [0xFFFD]
         | b1 # r1 \<Rightarrow>
             if is_cont b1 then ((b0 - 0xC0) * 64 + (b1 - 0x80)) # utf8_decode_bytes r1
             else 0xFFFD # utf8_decode_bytes bs)
      else if 0xE0 \<le> b0 \<and> b0 \<le> 0xEF then
        (case bs of
           [] \<Rightarrow> [0xFFFD]
         | b1 # r1 \<Rightarrow>
             if (if b0 = 0xE0 then 0xA0 else 0x80) \<le> b1
                \<and> b1 \<le> (if b0 = 0xED then 0x9F else 0xBF) then
               (case r1 of
                  [] \<Rightarrow> [0xFFFD]
                | b2 # r2 \<Rightarrow>
                    if is_cont b2
                    then ((b0 - 0xE0) * 4096 + (b1 - 0x80) * 64 + (b2 - 0x80))
                           # utf8_decode_bytes r2
                    else 0xFFFD # utf8_decode_bytes r1)
             else 0xFFFD # utf8_decode_bytes bs)
      else if 0xF0 \<le> b0 \<and> b0 \<le> 0xF4 then
        (case bs of
           [] \<Rightarrow> [0xFFFD]
         | b1 # r1 \<Rightarrow>
             if (if b0 = 0xF0 then 0x90 else 0x80) \<le> b1
                \<and> b1 \<le> (if b0 = 0xF4 then 0x8F else 0xBF) then
               (case r1 of
                  [] \<Rightarrow> [0xFFFD]
                | b2 # r2 \<Rightarrow>
                    if is_cont b2 then
                      (case r2 of
                         [] \<Rightarrow> [0xFFFD]
                       | b3 # r3 \<Rightarrow>
                           if is_cont b3 then
                             (let c = (b0 - 0xF0) * 262144 + (b1 - 0x80) * 4096
                                        + (b2 - 0x80) * 64 + (b3 - 0x80) - 0x10000
                              in (0xD800 + c div 1024) # (0xDC00 + c mod 1024)
                                   # utf8_decode_bytes r3)
                           else 0xFFFD # utf8_decode_bytes r2)
                    else 0xFFFD # utf8_decode_bytes r1)
             else 0xFFFD # utf8_decode_bytes bs)
      else 0xFFFD # utf8_decode_bytes bs)"

definition utf8_bytes :: "js_string \<Rightarrow> bytes" where
  "utf8_bytes s = map of_nat (utf8_encode_units (map unat s))"

definition utf8_string :: "bytes \<Rightarrow> js_string" where
  "utf8_string bs = map of_nat (utf8_decode_bytes (map unat bs))"


section \<open>The KLAP encryption session (src/unnamed/part\_007)\<close>

text \<open>
  \<open>Buffer.writeInt32BE\<close> and \<open>Buffer.readInt32BE\<close>: a two's-complement 32-bit value,
  most significant byte first.  Writing a number outside the 32-bit range throws
  \<open>RangeError\<close>, as does reading from fewer than four bytes.
\<close>

definition int32be :: "int \<Rightarrow> bytes" where
  "int32be x =
     (let u = x mod 2 ^ 32
      in [of_int (u div 2 ^ 24), of_int ((u div 2 ^ 16) mod 256),
          of_int ((u div 2 ^ 8) mod 256), of_int (u mod 256)])"

definition packSignedLong :: "int \<Rightarrow> exn + bytes" where
  "packSignedLong num =
     (if - (2 ^ 31) \<le> num \<and> num \<le> 2 ^ 31 - 1 then Inr (int32be num)
      else Inl (new_plain RangeError ''The value of \"value\" is out of range.''))"

definition readInt32BE :: "bytes \<Rightarrow> exn + int" where
  "readInt32BE bs =
     (case bs of
        b0 # b1 # b2 # b3 # rest \<Rightarrow>
          (let u = uint b0 * 2 ^ 24 + uint b1 * 2 ^ 16 + uint b2 * 2 ^ 8 + uint b3
           in Inr (if u \<ge> 2 ^ 31 then u - 2 ^ 32 else u))
      | _ \<Rightarrow> Inl (new_plain RangeError ''Attempt to access memory outside buffer bounds''))"

text \<open>The library's hash and cipher: \<open>createHash('sha256')\<close>, and
  \<open>createCipheriv\<close>/\<open>createDecipheriv\<close> for \<open>aes-128-cbc\<close> with \<open>update\<close> and
  \<open>final\<close> (\<open>None\<close> when \<open>final\<close> throws on a bad last block).\<close>

record klap_crypto =
  sha256 :: "bytes \<Rightarrow> bytes"
  cbc_encrypt :: "bytes \<Rightarrow> bytes \<Rightarrow> bytes \<Rightarrow> bytes"
  cbc_decrypt :: "bytes \<Rightarrow> bytes \<Rightarrow> bytes \<Rightarrow> bytes option"

record KlapEncryptionSession =
  localSeed :: bytes
  remoteSeed :: bytes
  userHash :: bytes
  klap_key :: bytes
  klap_iv :: bytes
  klap_seq :: int
  klap_sig :: bytes

definition ascii :: "string \<Rightarrow> bytes" where
  "ascii s = map (\<lambda>c. of_nat (of_char c)) s"

definition keyDerive :: "klap_crypto \<Rightarrow> bytes \<Rightarrow> bytes \<Rightarrow> bytes \<Rightarrow> bytes" where
  "keyDerive cr ls rs uh = take 16 (sha256 cr (ascii ''lsk'' @ ls @ rs @ uh))"

definition ivDerive :: "klap_crypto \<Rightarrow> bytes \<Rightarrow> bytes \<Rightarrow> bytes \<Rightarrow> exn + bytes \<times> int" where
  "ivDerive cr ls rs uh =
     (let fullIv = sha256 cr (ascii ''iv'' @ ls @ rs @ uh)
      in case readInt32BE (drop (length fullIv - 4) fullIv) of
           Inl e \<Rightarrow> Inl e
         | Inr s \<Rightarrow> Inr (take 12 fullIv, s))"

definition sigDerive :: "klap_crypto \<Rightarrow> bytes \<Rightarrow> bytes \<Rightarrow> bytes \<Rightarrow> bytes" where
  "sigDerive cr ls rs uh = take 28 (sha256 cr (ascii ''ldk'' @ ls @ rs @ uh))"

text \<open>The constructor (lines 530-539).\<close>

definition new_KlapEncryptionSession ::
  "klap_crypto \<Rightarrow> bytes \<Rightarrow> bytes \<Rightarrow> bytes \<Rightarrow> exn + KlapEncryptionSession" where
  "new_KlapEncryptionSession cr ls rs uh =
     (case ivDerive cr ls rs uh of
        Inl e \<Rightarrow> Inl e
      | Inr (iv, s) \<Rightarrow>
          Inr \<lparr>localSeed = ls, remoteSeed = rs, userHash = uh,
               klap_key = keyDerive cr ls rs uh, klap_iv = iv, klap_seq = s,
               klap_sig = sigDerive cr ls rs uh\<rparr>)"

text \<open>The IV that \<open>_generateCipher\<close> and \<open>_generateDecipher\<close> hand to the cipher:
  \<open>Buffer.concat([this._iv, packSignedLong(this._seq)])\<close>.\<close>

definition ivSeq :: "KlapEncryptionSession \<Rightarrow> exn + bytes" where
  "ivSeq s = (case packSignedLong (klap_seq s) of
                Inl e \<Rightarrow> Inl e
              | Inr packed \<Rightarrow> Inr (klap_iv s @ packed))"

definition pkcs7_pad :: "bytes \<Rightarrow> bytes" where
  "pkcs7_pad msg =
     (let blockSize = 16;
          paddingLength = blockSize - (length msg mod blockSize)
      in msg @ replicate paddingLength (of_nat paddingLength))"

text \<open>
  \<open>encrypt\<close> (lines 610-632): the session after the call, and the pair
  \<open>[signature || ciphertext, seq]\<close> or the error thrown.  The sequence number is a
  JavaScript number; \<open>+= 1\<close> is exact on it below \<open>2^53\<close>, far beyond the 32-bit range
  in which the call returns.
\<close>

definition KlapEncryptionSession_encrypt ::
  "klap_crypto \<Rightarrow> KlapEncryptionSession \<Rightarrow> bytes \<Rightarrow>
   KlapEncryptionSession \<times> (exn + bytes \<times> int)" where
  "KlapEncryptionSession_encrypt cr s msg =
     (let s1 = s\<lparr>klap_seq := klap_seq s + 1\<rparr>
      in case ivSeq s1 of
           Inl e \<Rightarrow> (s1, Inl e)
         | Inr iv \<Rightarrow>
             (let paddedData = pkcs7_pad msg;
                  ciphertext = cbc_encrypt cr (klap_key s1) iv paddedData
              in case packSignedLong (klap_seq s1) of
                   Inl e \<Rightarrow> (s1, Inl e)
                 | Inr packed \<Rightarrow>
                     (let signature = sha256 cr (klap_sig s1 @ packed @ ciphertext)
                      in (s1, Inr (signature @ ciphertext, klap_seq s1)))))"

text \<open>\<open>decrypt\<close> (lines 639-671): the session after the call, and the string
  \<open>toString('utf8')\<close> makes of the plaintext bytes, or the error thrown.\<close>

definition KlapEncryptionSession_decrypt ::
  "klap_crypto \<Rightarrow> KlapEncryptionSession \<Rightarrow> bytes \<Rightarrow>
   KlapEncryptionSession \<times> (exn + js_string)" where
  "KlapEncryptionSession_decrypt cr s msg =
     (case ivSeq s of
        Inl e \<Rightarrow> (s, Inl e)
      | Inr iv \<Rightarrow>
          (case cbc_decrypt cr (klap_key s) iv (drop 32 msg) of
             None \<Rightarrow> (s, Inl (new_plain PlainError ''bad decrypt''))
           | Some dp \<Rightarrow>
               if dp = [] then (s, Inr [])
               else
                 (let paddingLength = unat (last dp)
                  in if 0 < paddingLength \<and> paddingLength \<le> 16 \<and> paddingLength \<le> length dp
                        \<and> list_all (\<lambda>b. unat b = paddingLength)
                              (drop (length dp - paddingLength) dp)
                     then (s, Inr (utf8_string (take (length dp - paddingLength) dp)))
                     else (s, Inr (utf8_string dp)))))"

text \<open>A run of calls on one session, whatever each of them returns or throws.\<close>

datatype klap_call = Encrypt bytes | Decrypt bytes

fun klap_run :: "klap_crypto \<Rightarrow> KlapEncryptionSession \<Rightarrow> klap_call list \<Rightarrow> KlapEncryptionSession" where
  "klap_run cr s [] = s"
| "klap_run cr s (Encrypt m # cs) = klap_run cr (fst (KlapEncryptionSession_encrypt cr s m)) cs"
| "klap_run cr s (Decrypt m # cs) = klap_run cr (fst (KlapEncryptionSession_decrypt cr s m)) cs"

text \<open>The number of \<open>encrypt\<close> calls in a sequence of calls.\<close>

fun encrypt_calls :: "klap_call list \<Rightarrow> nat" where
  "encrypt_calls [] = 0"
| "encrypt_calls (Encrypt m # cs) = Suc (encrypt_calls cs)"
| "encrypt_calls (Decrypt m # cs) = encrypt_calls cs"


section \<open>The XOR codec (src/unnamed/part\_008, lines 335-393)\<close>

text \<open>A string is well formed when every surrogate code unit stands in a pair.\<close>

fun well_formed_units :: "nat list \<Rightarrow> bool" where
  "well_formed_units [] = True"
| "well_formed_units (u # us) =
     (if 0xD800 \<le> u \<and> u < 0xDC00 then
        (case us of [] \<Rightarrow> False
         | v # vs \<Rightarrow> 0xDC00 \<le> v \<and> v < 0xE000 \<and> well_formed_units vs)
      else \<not> (0xDC00 \<le> u \<and> u < 0xE000) \<and> well_formed_units us)"

definition well_formed :: "js_string \<Rightarrow> bool" where
  "well_formed s = well_formed_units (map unat s)"

text \<open>The string with every surrogate that stands in no pair replaced by U+FFFD (what
  \<open>String.prototype.toWellFormed\<close> returns).\<close>

fun toWellFormed_units :: "nat list \<Rightarrow> nat list" where
  "toWellFormed_units [] = []"
| "toWellFormed_units (u # us) =
     (if 0xD800 \<le> u \<and> u < 0xDC00 then
        (case us of
           [] \<Rightarrow> [0xFFFD]
         | v # vs \<Rightarrow>
             if 0xDC00 \<le> v \<and> v < 0xE000 then u # v # toWellFormed_units vs
             else 0xFFFD # toWellFormed_units us)
      else if 0xDC00 \<le> u \<and> u < 0xE000 then 0xFFFD # toWellFormed_units us
      else u # toWellFormed_units us)"

definition toWellFormed :: "js_string \<Rightarrow> js_string" where
  "toWellFormed s = map of_nat (toWellFormed_units (map unat s))"

definition INITIALIZATION_VECTOR :: "8 word" where
  "INITIALIZATION_VECTOR = 171"

fun xorPayload :: "8 word \<Rightarrow> bytes \<Rightarrow> bytes" where
  "xorPayload key [] = []"
| "xorPayload key (unencryptedByte # rest) =
     (let key' = key XOR unencryptedByte in key' # xorPayload key' rest)"

fun xorEncryptedPayload :: "8 word \<Rightarrow> bytes \<Rightarrow> bytes" where
  "xorEncryptedPayload key [] = []"
| "xorEncryptedPayload key (cipherByte # rest) =
     (let plainByte = key XOR cipherByte in plainByte # xorEncryptedPayload cipherByte rest)"

text \<open>\<open>Buffer.writeUInt32BE\<close>: \<open>RangeError\<close> above \<open>2^32 - 1\<close>.\<close>

definition writeUInt32BE :: "nat \<Rightarrow> exn + bytes" where
  "writeUInt32BE n =
     (if n < 2 ^ 32
      then Inr [of_nat (n div 2 ^ 24), of_nat ((n div 2 ^ 16) mod 256),
                of_nat ((n div 2 ^ 8) mod 256), of_nat (n mod 256)]
      else Inl (new_plain RangeError ''The value of \"value\" is out of range.''))"

definition XorEncryption_encrypt :: "js_string \<Rightarrow> exn + bytes" where
  "XorEncryption_encrypt request =
     (let plainBytes = utf8_bytes request
      in case writeUInt32BE (length plainBytes) of
           Inl e \<Rightarrow> Inl e
         | Inr lengthBuffer \<Rightarrow>
             Inr (lengthBuffer @ xorPayload INITIALIZATION_VECTOR plainBytes))"

definition XorEncryption_decrypt :: "bytes \<Rightarrow> js_string" where
  "XorEncryption_decrypt ciphertext =
     utf8_string (xorEncryptedPayload INITIALIZATION_VECTOR ciphertext)"

text \<open>The number a big-endian byte sequence stands for.\<close>

definition be_value :: "bytes \<Rightarrow> nat" where
  "be_value bs = foldl (\<lambda>acc b. acc * 256 + unat b) 0 bs"


section \<open>The discovery protocol (src/unnamed/part\_005)\<close>

text \<open>
  \<open>JSON.parse\<close> and the read of \<open>info.result\<close> (\<open>None\<close>: the member is missing or
  falsy) come from outside.  \<open>_getDiscoveryJsonLegacy\<close> (lines 867-877) returns whatever
  the parse gives, \<open>null\<close> (\<open>None\<close>) too.  \<open>_getDiscoveryJson\<close> (lines 885-898) reads
  \<open>info.result\<close> inside its \<open>try\<close>, so that a \<open>null\<close> parse ends in the
  \<open>KasaException\<close> of its \<open>catch\<close> like a parse error.  part\_005 carries its own copy
  of \<open>XorEncryption\<close>, the same code as that of part\_008.
\<close>

record 'i discover_env =
  json_parse :: "js_string \<Rightarrow> 'i parsed_json"
  info_result :: "'i \<Rightarrow> 'i option"

definition getDiscoveryJsonLegacy ::
  "'i discover_env \<Rightarrow> bytes \<Rightarrow> string \<Rightarrow> exn + 'i option" where
  "getDiscoveryJsonLegacy env data ip =
     (case json_parse env (XorEncryption_decrypt data) of
        JsonSyntaxError msg \<Rightarrow>
          Inl (new_plain KasaException
                 (''Unable to read response from device: '' @ ip @ '': '' @ msg))
      | JsonNull \<Rightarrow> Inr None
      | JsonValue info \<Rightarrow> Inr (Some info))"

definition getDiscoveryJson :: "'i discover_env \<Rightarrow> bytes \<Rightarrow> string \<Rightarrow> exn + 'i" where
  "getDiscoveryJson env data ip =
     (case json_parse env (utf8_string (drop 16 data)) of
        JsonSyntaxError msg \<Rightarrow>
          Inl (new_plain KasaException
                 (''Unable to read response from device: '' @ ip @ '': '' @ msg))
      | JsonNull \<Rightarrow>
          Inl (new_plain KasaException
                 (''Unable to read response from device: '' @ ip
                    @ '': Cannot read properties of null (reading 'result')''))
      | JsonValue info \<Rightarrow> Inr (case info_result env info of Some r \<Rightarrow> r | None \<Rightarrow> info))"

text \<open>The \<open>info\<close> a suspended call holds (\<open>None\<close>: \<open>null\<close>), by the parser it came
  from.\<close>

datatype 'i parsed = LegacyInfo "'i option" | SmartInfo 'i

fun parsed_info :: "'i parsed \<Rightarrow> 'i option" where
  "parsed_info (LegacyInfo i) = i"
| "parsed_info (SmartInfo i) = Some i"

text \<open>What \<open>discoveredDevices[ip]\<close> can hold: a device, or one of the two stand-in
  objects the \<open>catch\<close> block builds (the second from \<open>info\<close>, when it is not
  \<open>null\<close>).\<close>

datatype ('i, 'd) found = Device 'd | RequiresAuth string | ConnectionTimeout string "'i option"

text \<open>
  The protocol object.  \<open>completes\<close> counts the \<open>emit('complete')\<close> calls, and
  \<open>awaiting\<close> holds the calls of \<open>datagramReceived\<close> that are suspended at
  \<open>await deviceFunc(info, config)\<close>.
\<close>

record ('i, 'd) DiscoverProtocol =
  dp_target :: string
  seenHosts :: "string list"
  discoveredDevices :: "string \<rightharpoonup> ('i, 'd) found"
  unsupportedDeviceExceptions :: "string \<rightharpoonup> exn"
  invalidDeviceExceptions :: "string \<rightharpoonup> exn"
  targetDiscovered :: bool
  completes :: nat
  awaiting :: "(string \<times> 'i parsed) list"

definition new_DiscoverProtocol :: "string \<Rightarrow> ('i, 'd) DiscoverProtocol" where
  "new_DiscoverProtocol tgt =
     \<lparr>dp_target = tgt, seenHosts = [], discoveredDevices = Map.empty,
      unsupportedDeviceExceptions = Map.empty, invalidDeviceExceptions = Map.empty,
      targetDiscovered = False, completes = 0, awaiting = []\<rparr>"

text \<open>\<open>_handleDiscoveredEvent\<close> (lines 579-584).\<close>

definition handleDiscoveredEvent :: "('i, 'd) DiscoverProtocol \<Rightarrow> ('i, 'd) DiscoverProtocol" where
  "handleDiscoveredEvent p =
     (if dp_target p \<in> set (seenHosts p)
      then p\<lparr>targetDiscovered := True, completes := completes p + 1\<rparr>
      else p)"

text \<open>\<open>String.prototype.includes\<close>.\<close>

fun starts_with :: "string \<Rightarrow> string \<Rightarrow> bool" where
  "starts_with s [] = True"
| "starts_with [] (c # cs) = False"
| "starts_with (x # xs) (c # cs) = (x = c \<and> starts_with xs cs)"

fun includes_str :: "string \<Rightarrow> string \<Rightarrow> bool" where
  "includes_str [] sub = (sub = [])"
| "includes_str (x # xs) sub = (starts_with (x # xs) sub \<or> includes_str xs sub)"

text \<open>\<open>datagramReceived\<close> (lines 459-577) up to its \<open>await\<close>.\<close>

definition datagramReceived_begin ::
  "'i discover_env \<Rightarrow> ('i, 'd) DiscoverProtocol \<Rightarrow> string \<Rightarrow> bytes \<Rightarrow> ('i, 'd) DiscoverProtocol" where
  "datagramReceived_begin env p ip data =
     (if ip \<in> set (seenHosts p) then p
      else
        (let p1 = p\<lparr>seenHosts := seenHosts p @ [ip]\<rparr>
         in case getDiscoveryJsonLegacy env data ip of
              Inr info \<Rightarrow> p1\<lparr>awaiting := awaiting p1 @ [(ip, LegacyInfo info)]\<rparr>
            | Inl iotError \<Rightarrow>
                (case getDiscoveryJson env data ip of
                   Inr info \<Rightarrow> p1\<lparr>awaiting := awaiting p1 @ [(ip, SmartInfo info)]\<rparr>
                 | Inl smartError \<Rightarrow> p1)))"

text \<open>\<open>datagramReceived\<close> from the \<open>await\<close> on: \<open>deviceFunc\<close> has returned a device
  or thrown.  An error that matches no branch is thrown again and dropped by the
  \<open>.catch(() => {})\<close> of the socket's message listener.\<close>

definition datagramReceived_resume ::
  "('i, 'd) DiscoverProtocol \<Rightarrow> string \<Rightarrow> 'i option \<Rightarrow> exn + 'd \<Rightarrow>
   ('i, 'd) DiscoverProtocol" where
  "datagramReceived_resume p ip info outcome =
     (case outcome of
        Inr device \<Rightarrow>
          handleDiscoveredEvent
            (p\<lparr>discoveredDevices := (discoveredDevices p)(ip \<mapsto> Device device)\<rparr>)
      | Inl error \<Rightarrow>
          if instanceof error UnsupportedDeviceError then
            handleDiscoveredEvent
              (p\<lparr>unsupportedDeviceExceptions := (unsupportedDeviceExceptions p)(ip \<mapsto> error)\<rparr>)
          else if exn_class error = AuthenticationError then
            handleDiscoveredEvent
              (p\<lparr>discoveredDevices := (discoveredDevices p)(ip \<mapsto> RequiresAuth ip)\<rparr>)
          else if exn_message error \<noteq> [] \<and> includes_str (exn_message error) ''timeout'' then
            handleDiscoveredEvent
              (p\<lparr>discoveredDevices :=
                    (discoveredDevices p)(ip \<mapsto> ConnectionTimeout ip info)\<rparr>)
          else if instanceof error KasaException then
            handleDiscoveredEvent
              (p\<lparr>invalidDeviceExceptions := (invalidDeviceExceptions p)(ip \<mapsto> error)\<rparr>)
          else p)"

text \<open>What can happen to the protocol object: a datagram arrives from an address and
  port, or the \<open>deviceFunc\<close> call awaited for an address settles.\<close>

datatype 'd discover_input = Datagram string nat bytes | Settled string "exn + 'd"

fun discover_step ::
  "'i discover_env \<Rightarrow> ('i, 'd) DiscoverProtocol \<Rightarrow> 'd discover_input \<Rightarrow> ('i, 'd) DiscoverProtocol" where
  "discover_step env p (Datagram ip port data) = datagramReceived_begin env p ip data"
| "discover_step env p (Settled ip outcome) =
     (case map_of (awaiting p) ip of
        None \<Rightarrow> p
      | Some parsed \<Rightarrow>
          datagramReceived_resume
            (p\<lparr>awaiting := filter (\<lambda>(h, i). h \<noteq> ip) (awaiting p)\<rparr>) ip (parsed_info parsed)
            outcome)"

definition discover_run ::
  "'i discover_env \<Rightarrow> ('i, 'd) DiscoverProtocol \<Rightarrow> 'd discover_input list \<Rightarrow> ('i, 'd) DiscoverProtocol" where
  "discover_run env p steps = foldl (discover_step env) p steps"

section \<open>Properties of the error-code handlers and of the AES transport\<close>

lemma fromInt_loop_obj: "\<exists>n w. fromInt_loop es v = JErrObj n w"
  by (induction es) auto

lemma fromInt_obj: "\<exists>n w. SmartErrorCode_fromInt v = JErrObj n w"
  by (simp add: SmartErrorCode_fromInt_def fromInt_loop_obj)

lemma strict_eq_obj_left [simp]: "strict_eq (JErrObj n w) x = False"
  by (cases x) auto

lemma strict_eq_obj_right [simp]: "strict_eq x (JErrObj n w) = False"
  by (cases x) auto

lemma js_has_obj [simp]: "js_has xs (JErrObj n w) = False"
  by (induction xs) (auto simp: js_has_def)

lemma truthy_obj: "js_or (JErrObj n w) JNull = JErrObj n w"
  by (simp add: js_or_def)

lemma fromInt_SUCCESS: "SmartErrorCode_fromInt (JNum 0) = JErrObj ''SUCCESS'' (JNum 0)"
  by (simp add: SmartErrorCode_fromInt_def SmartErrorCode_entries_def)

lemma fromInt_LOGIN_ERROR:
  "SmartErrorCode_fromInt (JNum (- 1501)) = JErrObj ''LOGIN_ERROR'' (JNum (- 1501))"
  by (simp add: SmartErrorCode_fromInt_def SmartErrorCode_entries_def)

lemma fromInt_JSON_DECODE_FAIL_ERROR:
  "SmartErrorCode_fromInt (JNum (- 1003)) = JErrObj ''JSON_DECODE_FAIL_ERROR'' (JNum (- 1003))"
  by (simp add: SmartErrorCode_fromInt_def SmartErrorCode_entries_def)

text \<open>The AES handler has one outcome: it throws \<open>DeviceError\<close>, whatever the code.\<close>

lemma aes_handler_always_throws:
  "AesTransport_handleResponseErrorCode t respDict msg =
     (t, Inl \<lparr>exn_class = DeviceError,
              exn_message = msg @ '': '' @ host t @ '': ''
                 @ error_code_text (SmartErrorCode_fromInt (error_code respDict)),
              exn_errorCode = SmartErrorCode_fromInt (error_code respDict)\<rparr>)"
proof -
  obtain n w where e: "SmartErrorCode_fromInt (error_code respDict) = JErrObj n w"
    using fromInt_obj by blast
  show ?thesis
    by (simp add: AesTransport_handleResponseErrorCode_def e Let_def new_device_error_def
          truthy_obj)
qed

lemma smartcam_handler_always_throws:
  "SmartCamProtocol_handleResponseErrorCode h respDict meth True =
     Inl \<lparr>exn_class = DeviceError,
          exn_message = ''Error querying device: '' @ h @ '': ''
             @ error_code_text (SmartErrorCode_fromInt (error_code respDict))
             @ '' for method: '' @ meth,
          exn_errorCode = SmartErrorCode_fromInt (error_code respDict)\<rparr>"
proof -
  obtain n w where e: "SmartErrorCode_fromInt (error_code respDict) = JErrObj n w"
    using fromInt_obj by blast
  show ?thesis
    by (simp add: SmartCamProtocol_handleResponseErrorCode_def e Let_def new_device_error_def
          truthy_obj)
qed

lemma error_code_text_SUCCESS: "error_code_text (JErrObj ''SUCCESS'' (JNum 0)) = ''SUCCESS(0)''"
  by code_simp

lemma error_code_text_LOGIN_ERROR:
  "error_code_text (JErrObj ''LOGIN_ERROR'' (JNum (- 1501))) = ''LOGIN_ERROR(-1501)''"
  by code_simp

text \<open>
  Claim C1, on the code.  The claim has both handlers return without an error exactly on
  the success code 0.  The code compares the object that \<open>fromInt\<close> returns with the
  number \<open>SmartErrorCode.SUCCESS\<close> (and looks the object up in sets of numbers), so on a
  response whose \<open>error_code\<close> is 0 the AES handler and the SmartCam handler (with
  \<open>raiseOnError\<close> true) both throw \<open>DeviceError\<close>, carrying \<open>SUCCESS(0)\<close>.
\<close>

theorem C1_handlers_throw_on_success_code:
  "AesTransport_handleResponseErrorCode t \<lparr>error_code = JNum 0\<rparr> msg =
     (t, Inl \<lparr>exn_class = DeviceError,
              exn_message = msg @ '': '' @ host t @ '': SUCCESS(0)'',
              exn_errorCode = JErrObj ''SUCCESS'' (JNum 0)\<rparr>)
   \<and> SmartCamProtocol_handleResponseErrorCode h
        \<lparr>error_code = JNum 0, reply_method = m, reply_result = r\<rparr> meth True =
     Inl \<lparr>exn_class = DeviceError,
          exn_message = ''Error querying device: '' @ h @ '': SUCCESS(0) for method: '' @ meth,
          exn_errorCode = JErrObj ''SUCCESS'' (JNum 0)\<rparr>"
  by (simp add: aes_handler_always_throws smartcam_handler_always_throws fromInt_SUCCESS
        error_code_text_SUCCESS)


lemma post_error_not_auth:
  "HttpClient_post nt h c url json headers cookiesDict = (c', Inl e) \<Longrightarrow>
   \<not> instanceof e AuthenticationError"
  by (auto simp: HttpClient_post_def Let_def instanceof_def new_plain_def
           split: net_outcome.splits parsed_json.splits if_splits)

lemma post_sent:
  "HttpClient_post nt h c url json headers cookiesDict = (c', r) \<Longrightarrow>
   sent c' = sent c @ [HttpClient_request url json headers cookiesDict]"
  by (auto simp: HttpClient_post_def Let_def
           split: net_outcome.splits parsed_json.splits if_splits)





text \<open>No handshake succeeds either: the session and the state are never written.\<close>

lemma performHandshake_fails:
  "\<exists>c e. performHandshake env t =
            (t\<lparr>tokenUrl := None, sessionExpireAt := ExpNull, sessionCookie := None,
               httpClient := c\<rparr>, Inl e)
          \<and> \<not> instanceof e AuthenticationError
          \<and> sent c = sent (httpClient t)
                @ [HttpClient_request (appUrl t) (Some AsyncGeneratorObject) handshake_headers None]"
proof -
  let ?t0 = "t\<lparr>tokenUrl := None, sessionExpireAt := ExpNull, sessionCookie := None\<rparr>"
  obtain c r where post: "HttpClient_post (net env) (host t) (httpClient t) (appUrl t)
      (Some AsyncGeneratorObject) handshake_headers None = (c, r)"
    by (cases "HttpClient_post (net env) (host t) (httpClient t) (appUrl t)
      (Some AsyncGeneratorObject) handshake_headers None") auto
  show ?thesis
  proof (cases r)
    case (Inl e)
    then have "\<not> instanceof e AuthenticationError"
      using post post_error_not_auth by blast
    then show ?thesis
      using post Inl post_sent[OF post]
      by (intro exI[of _ c]) (simp add: performHandshake_def AesTransport_post_def Let_def)
  next
    case (Inr sb)
    obtain statusCode body where sb: "sb = (statusCode, body)" by (cases sb) auto
    show ?thesis
      using post Inr sb post_sent[OF post]
      by (intro exI[of _ c], cases body)
         (simp_all add: performHandshake_def AesTransport_post_def Let_def
            aes_handler_always_throws instanceof_def new_plain_def)
  qed
qed

lemma handshake_request:
  "HttpClient_request url (Some AsyncGeneratorObject) handshake_headers cookiesDict =
     \<lparr>req_url = url,
      req_headers = (case cookiesDict of
                       None \<Rightarrow> [''Content-Type'' \<mapsto> HStr ''application/json''] ++ handshake_headers
                     | Some cs \<Rightarrow> ([''Content-Type'' \<mapsto> HStr ''application/json'']
                                   ++ handshake_headers)(''Cookie'' \<mapsto> HStr (cookie_header cs)))
                    (''Content-Length'' \<mapsto> HNum 2),
      req_data = Some ''{}''\<rparr>"
  by (simp add: HttpClient_request_def Let_def numeral_2_eq_2 split: option.splits)

lemma performHandshake_sent:
  "sent (httpClient (fst (performHandshake env t))) =
     sent (httpClient t)
       @ [HttpClient_request (appUrl t) (Some AsyncGeneratorObject) handshake_headers None]"
proof -
  obtain c e where "performHandshake env t =
      (t\<lparr>tokenUrl := None, sessionExpireAt := ExpNull, sessionCookie := None,
         httpClient := c\<rparr>, Inl e)"
    "sent c = sent (httpClient t)
       @ [HttpClient_request (appUrl t) (Some AsyncGeneratorObject) handshake_headers None]"
    using performHandshake_fails by blast
  then show ?thesis by simp
qed






text \<open>
  Claim C5, on the code.  The claim has every handshake request carry
  \<open>Content-Length: 314\<close>.  \<open>performHandshake\<close> does put \<open>'314'\<close> in the headers it hands
  to \<open>post\<close>, but \<open>post\<close> then overwrites the header with the byte length of the body
  it serialises, and the body it is given is an async generator object, which
  \<open>JSON.stringify\<close> renders as \<open>{}\<close>.  Whatever the transport's state and keys, the one
  request a handshake sends goes to \<open>/app\<close> with the body \<open>{}\<close> and the header
  \<open>Content-Length: 2\<close>.
\<close>

theorem C5_handshake_content_length_is_overwritten:
  "handshake_headers ''Content-Length'' = Some (HStr ''314'')
   \<and> (\<exists>r. sent (httpClient (fst (performHandshake env t))) = sent (httpClient t) @ [r]
          \<and> req_url r = appUrl t
          \<and> req_data r = Some ''{}''
          \<and> req_headers r ''Content-Length'' = Some (HNum 2))"
proof -
  have h: "handshake_headers ''Content-Length'' = Some (HStr ''314'')"
    by (simp add: handshake_headers_def KEY_PAIR_CONTENT_LENGTH_def show_int_def
          show_nat.simps digit_char_def)
  show ?thesis
    using h by (simp add: performHandshake_sent handshake_request)
qed

section \<open>Properties of the Smart protocol\<close>

lemma transport_send_bs [simp]:
  "multiRequestBatchSize (fst (transport_send tr p w)) = multiRequestBatchSize p"
  by (simp add: transport_send_def)

lemma executeQuery_page_bs [simp]:
  "multiRequestBatchSize (fst (executeQuery_page tr handle p m i)) = multiRequestBatchSize p"
  by (simp add: executeQuery_page_def transport_send_def split: sum.splits prod.splits)

lemma handleResponseLists_loop_bs [simp]:
  "multiRequestBatchSize (fst (handleResponseLists_loop tr handle m nm n p lst))
     = multiRequestBatchSize p"
proof (induction tr handle m nm n p lst rule: handleResponseLists_loop.induct)
  case (1 tr handle m nm n p lst)
  show ?case
  proof (cases "int (length lst) < n")
    case False
    then show ?thesis by (subst handleResponseLists_loop.simps) simp
  next
    case True
    obtain p1 r where q: "executeQuery_page tr handle p m (length lst) = (p1, r)"
      by (cases "executeQuery_page tr handle p m (length lst)") auto
    have p1: "multiRequestBatchSize p1 = multiRequestBatchSize p"
      using executeQuery_page_bs[of tr handle p m "length lst"] q by simp
    show ?thesis
      using True q p1 "1.IH"
      by (subst handleResponseLists_loop.simps)
         (auto split: sum.splits rvalue.splits option.splits)
  qed
qed

lemma handleResponseLists_loop_bs_pair:
  "handleResponseLists_loop tr handle m nm n p lst = (p', r) \<Longrightarrow>
   multiRequestBatchSize p' = multiRequestBatchSize p"
  using handleResponseLists_loop_bs[of tr handle m nm n p lst] by simp

lemma handleResponseLists_bs [simp]:
  "multiRequestBatchSize (fst (handleResponseLists tr handle p res m)) = multiRequestBatchSize p"
  by (auto simp: handleResponseLists_def
           split: rvalue.splits list.splits prod.splits sum.splits
           dest: handleResponseLists_loop_bs_pair)

lemma handleResponseLists_bs_pair:
  "handleResponseLists tr handle p res m = (p', r) \<Longrightarrow>
   multiRequestBatchSize p' = multiRequestBatchSize p"
  using handleResponseLists_bs[of tr handle p res m] by simp

lemma transport_send_bs_pair:
  "transport_send tr p w = (p', r) \<Longrightarrow> multiRequestBatchSize p' = multiRequestBatchSize p"
  using transport_send_bs[of tr p w] by simp

lemma single_requests_loop_bs [simp]:
  "multiRequestBatchSize (fst (single_requests_loop tr handle b p mr reqs))
     = multiRequestBatchSize p"
  by (induction reqs arbitrary: p mr)
     (auto split: prod.splits sum.splits dest: transport_send_bs_pair)

lemma requery_loop_bs [simp]:
  "multiRequestBatchSize (fst (requery_loop tr handle b p mr reqs)) = multiRequestBatchSize p"
  by (induction reqs arbitrary: p mr)
     (auto split: prod.splits sum.splits dest: transport_send_bs_pair)

lemma responses_loop_bs [simp]:
  "multiRequestBatchSize (fst (responses_loop tr handle sub_handle b it p mr rs))
     = multiRequestBatchSize p"
  by (induction rs arbitrary: p mr)
     (auto simp: Let_def split: prod.splits sum.splits option.splits
           dest: handleResponseLists_bs_pair)

lemma responses_loop_bs_pair:
  "responses_loop tr handle sub_handle b it p mr rs = (p', r) \<Longrightarrow>
   multiRequestBatchSize p' = multiRequestBatchSize p"
  using responses_loop_bs[of tr handle sub_handle b it p mr rs] by simp

text \<open>The batch loop stores nothing but 1 in the batch size.\<close>

lemma batches_loop_bs_or_one:
  "multiRequestBatchSize (fst (batches_loop tr handle sub_handle b it n k p mr bs))
     = multiRequestBatchSize p
   \<or> multiRequestBatchSize (fst (batches_loop tr handle sub_handle b it n k p mr bs)) = 1"
proof (induction bs arbitrary: p mr k)
  case Nil
  then show ?case by simp
next
  case (Cons requestsStep rest)
  obtain p1 r where s: "transport_send tr p (WMulti requestsStep) = (p1, r)"
    by (cases "transport_send tr p (WMulti requestsStep)") auto
  have p1: "multiRequestBatchSize p1 = multiRequestBatchSize p"
    using s transport_send_bs_pair by blast
  show ?case
  proof (cases r)
    case (Inl e)
    then show ?thesis using s p1 by simp
  next
    case (Inr responseStep)
    show ?thesis
    proof (cases "handle (sp_host p1) responseStep (batch_name k n) True")
      case (Inl error)
      then show ?thesis using s p1 Inr by simp
    next
      case hr: (Inr responseStep')
      show ?thesis
      proof (cases "responses responseStep'")
        case None
        then show ?thesis using s p1 Inr hr by simp
      next
        case (Some rs)
        obtain p2 r2 where rl: "responses_loop tr handle sub_handle b it p1 mr rs = (p2, r2)"
          by (cases "responses_loop tr handle sub_handle b it p1 mr rs") auto
        have p2: "multiRequestBatchSize p2 = multiRequestBatchSize p"
          using rl responses_loop_bs_pair p1 by metis
        show ?thesis
        proof (cases r2)
          case (Inl e)
          then show ?thesis using s Inr hr Some rl p2 by simp
        next
          case r2r: (Inr mr')
          then show ?thesis
            using s Inr hr Some rl p2 Cons.IH[of "k + 1" p2 mr'] by simp
        qed
      qed
    qed
  qed
qed

lemma batches_loop_bs:
  assumes "never_demotes handle"
  shows "multiRequestBatchSize (fst (batches_loop tr handle sub_handle b it n k p mr bs))
     = multiRequestBatchSize p"
proof (induction bs arbitrary: p mr k)
  case Nil
  then show ?case by simp
next
  case (Cons requestsStep rest)
  obtain p1 r where s: "transport_send tr p (WMulti requestsStep) = (p1, r)"
    by (cases "transport_send tr p (WMulti requestsStep)") auto
  have p1: "multiRequestBatchSize p1 = multiRequestBatchSize p"
    using s transport_send_bs_pair by blast
  show ?case
  proof (cases r)
    case (Inl e)
    then show ?thesis using s p1 by simp
  next
    case (Inr responseStep)
    show ?thesis
    proof (cases "handle (sp_host p1) responseStep (batch_name k n) True")
      case (Inl error)
      then have "\<not> js_has [SmartErrorCode_static ''JSON_DECODE_FAIL_ERROR'',
                   SmartErrorCode_static ''INTERNAL_UNKNOWN_ERROR''] (exn_errorCode error)"
        using assms unfolding never_demotes_def by blast
      then show ?thesis using s p1 Inr Inl by simp
    next
      case hr: (Inr responseStep')
      show ?thesis
      proof (cases "responses responseStep'")
        case None
        then show ?thesis using s p1 Inr hr by simp
      next
        case (Some rs)
        obtain p2 r2 where rl: "responses_loop tr handle sub_handle b it p1 mr rs = (p2, r2)"
          by (cases "responses_loop tr handle sub_handle b it p1 mr rs") auto
        have p2: "multiRequestBatchSize p2 = multiRequestBatchSize p"
          using rl responses_loop_bs_pair p1 by metis
        show ?thesis
        proof (cases r2)
          case (Inl e)
          then show ?thesis using s Inr hr Some rl p2 by simp
        next
          case r2r: (Inr mr')
          then show ?thesis
            using s Inr hr Some rl p2 Cons.IH[of "k + 1" p2 mr'] by simp
        qed
      qed
    qed
  qed
qed

lemma smart_handler_error_code:
  "SmartProtocol_handleResponseErrorCode h r m b = Inl e \<Longrightarrow>
   \<exists>n w. exn_errorCode e = JErrObj n w"
proof -
  assume a: "SmartProtocol_handleResponseErrorCode h r m b = Inl e"
  obtain n w where o: "SmartErrorCode_fromInt (error_code r) = JErrObj n w"
    using fromInt_obj by blast
  show ?thesis
    using a o
    by (auto simp: SmartProtocol_handleResponseErrorCode_def Let_def new_device_error_def
          js_or_def split: if_splits)
qed

lemma smartcam_handler_error_code:
  "SmartCamProtocol_handleResponseErrorCode h r m b = Inl e \<Longrightarrow>
   \<exists>n w. exn_errorCode e = JErrObj n w"
proof -
  assume a: "SmartCamProtocol_handleResponseErrorCode h r m b = Inl e"
  obtain n w where o: "SmartErrorCode_fromInt (error_code r) = JErrObj n w"
    using fromInt_obj by blast
  show ?thesis
    using a o
    by (auto simp: SmartCamProtocol_handleResponseErrorCode_def Let_def new_device_error_def
          js_or_def split: if_splits)
qed

lemma smart_never_demotes: "never_demotes SmartProtocol_handleResponseErrorCode"
  unfolding never_demotes_def using smart_handler_error_code by fastforce

lemma smartcam_never_demotes: "never_demotes SmartCamProtocol_handleResponseErrorCode"
  unfolding never_demotes_def using smartcam_handler_error_code by fastforce


lemma batches_loop_bs_pair:
  "never_demotes handle \<Longrightarrow>
   batches_loop tr handle sub_handle b it n k p mr bs = (p', r) \<Longrightarrow>
   multiRequestBatchSize p' = multiRequestBatchSize p"
  using batches_loop_bs[of handle tr sub_handle b it n k p mr bs] by simp

lemma executeMultipleQuery_bs:
  assumes "never_demotes handle"
  shows "multiRequestBatchSize (fst (executeMultipleQuery tr handle sub_handle p requests it))
           = multiRequestBatchSize p"
  using assms
  by (auto simp: executeMultipleQuery_def Let_def split: prod.splits sum.splits
           dest: batches_loop_bs_pair)

lemma batches_loop_sticky:
  "multiRequestBatchSize p = 1 \<Longrightarrow>
   multiRequestBatchSize (fst (batches_loop tr handle sub_handle b it n k p mr bs)) = 1"
  using batches_loop_bs_or_one[of tr handle sub_handle b it n k p mr bs] by auto

text \<open>The sticky half of claim C3 holds for every handler: a query on an instance whose
  batch size is 1 leaves it at 1.\<close>

lemma executeMultipleQuery_sticky:
  "multiRequestBatchSize p = 1 \<Longrightarrow>
   multiRequestBatchSize (fst (executeMultipleQuery tr handle sub_handle p requests it)) = 1"
  by (simp add: executeMultipleQuery_def Let_def)

lemma executeQuery_sticky:
  "multiRequestBatchSize p = 1 \<Longrightarrow>
   multiRequestBatchSize (fst (executeQuery tr handle sub_handle p request it)) = 1"
  by (simp add: executeQuery_def Let_def executeMultipleQuery_sticky split_beta
           split: request.splits list.splits sum.splits option.splits)

lemma executeQuery_sticky_pair:
  "multiRequestBatchSize p = 1 \<Longrightarrow> executeQuery tr handle sub_handle p request it = (p', r) \<Longrightarrow>
   multiRequestBatchSize p' = 1"
  using executeQuery_sticky[of p tr handle sub_handle request it] by simp

lemma SmartProtocol_query_loop_sticky:
  "multiRequestBatchSize p = 1 \<Longrightarrow>
   multiRequestBatchSize (fst (SmartProtocol_query_loop tr handle sub_handle request rc p retry)) = 1"
proof (induction tr handle sub_handle request rc p retry rule: SmartProtocol_query_loop.induct)
  case (1 tr handle sub_handle request retryCount p retry)
  show ?case
  proof (cases "int retry \<le> retryCount")
    case False
    then show ?thesis using "1.prems" by (subst SmartProtocol_query_loop.simps) simp
  next
    case True
    obtain p1 r where q: "executeQuery tr handle sub_handle p request True = (p1, r)"
      by (cases "executeQuery tr handle sub_handle p request True") auto
    have p1: "multiRequestBatchSize p1 = 1"
      using q "1.prems" executeQuery_sticky_pair by blast
    then have p1r: "multiRequestBatchSize (sp_sleep (BACKOFF_SECONDS_AFTER_TIMEOUT * 1000) (sp_reset p1)) = 1"
      "multiRequestBatchSize (sp_reset p1) = 1"
      by (simp_all add: sp_sleep_def sp_reset_def)
    show ?thesis
      using True q p1 p1r "1.IH"
      apply (subst SmartProtocol_query_loop.simps)
      apply (auto split: sum.splits)
      apply blast
      done
  qed
qed

lemma SmartProtocol_query_sticky:
  "multiRequestBatchSize p = 1 \<Longrightarrow>
   multiRequestBatchSize (fst (SmartProtocol_query tr handle sub_handle p request rc)) = 1"
  by (simp add: SmartProtocol_query_def SmartProtocol_query_loop_sticky)

lemma make_batches_two:
  "make_batches 0 (Suc (Suc 0)) 5 [a, b] = [[a, b]]"
  by (subst make_batches.simps, subst make_batches.simps) simp

lemma error_code_text_JSON_DECODE:
  "error_code_text (JErrObj ''JSON_DECODE_FAIL_ERROR'' (JNum (- 1003)))
     = ''JSON_DECODE_FAIL_ERROR(-1003)''"
  by code_simp

lemma batch_name_1_1: "batch_name 0 (Suc 0) = ''multi-request-batch-1-of-1''"
  by code_simp

text \<open>
  Claim C3, on the code.  The claim has a batch answered with \<open>JSON_DECODE_FAIL_ERROR\<close>
  or \<open>INTERNAL_UNKNOWN_ERROR\<close> set the batch size to 1 and raise \<open>Retryable\<close>.  The
  \<open>catch\<close> of \<open>_executeMultipleQuery\<close> tests whether the array of the two numbers
  includes \<open>error.errorCode\<close>, which is the object \<open>fromInt\<close> made, so the test is
  never true: with the handler of \<open>SmartProtocol\<close>, \<open>_executeMultipleQuery\<close> leaves
  the batch size as it was on every input.  On a new instance (batch size 5), a
  two-method query whose batch is answered with \<open>{"error_code": -1003}\<close> keeps the batch
  size at 5 and throws the \<open>DeviceError\<close> of the handler.
\<close>

theorem C3_batch_size_is_never_demoted:
  "multiRequestBatchSize
     (fst (executeMultipleQuery tr SmartProtocol_handleResponseErrorCode
             SmartProtocol_handleResponseErrorCode p requests iterateListPages))
     = multiRequestBatchSize p
   \<and> executeMultipleQuery
        (\<lambda>k. Inr \<lparr>error_code = JNum (- 1003), reply_method = None,
                   reply_result = RUndefined, responses = None\<rparr>)
        SmartProtocol_handleResponseErrorCode SmartProtocol_handleResponseErrorCode
        (new_SmartProtocol ''10.0.0.2'' None)
        [(''get_device_info'', None), (''get_device_usage'', None)] True
     = (\<lparr>sp_host = ''10.0.0.2'', multiRequestBatchSize = 5, methodMissingLogged = False,
         sp_sent = [WMulti [(''get_device_info'', None), (''get_device_usage'', None)]],
         sp_events = []\<rparr>,
        Inl \<lparr>exn_class = DeviceError,
             exn_message = ''Error querying device: 10.0.0.2: JSON_DECODE_FAIL_ERROR(-1003)''
                @ '' for method: multi-request-batch-1-of-1'',
             exn_errorCode = JErrObj ''JSON_DECODE_FAIL_ERROR'' (JNum (- 1003))\<rparr>)"
proof -
  have general: "multiRequestBatchSize
     (fst (executeMultipleQuery tr SmartProtocol_handleResponseErrorCode
             SmartProtocol_handleResponseErrorCode p requests iterateListPages))
     = multiRequestBatchSize p"
    using executeMultipleQuery_bs[OF smart_never_demotes] by blast
  have st: "SmartErrorCode_static ''SUCCESS'' = JNum 0"
      "SmartErrorCode_static ''JSON_DECODE_FAIL_ERROR'' = JNum (- 1003)"
      "SmartErrorCode_static ''INTERNAL_UNKNOWN_ERROR'' = JNum (- 100000)"
      "SmartErrorCode_static ''SESSION_EXPIRED'' = JNum (- 40401)"
      "SmartErrorCode_static ''DEVICE_BUSY'' = JUndefined"
      "SmartErrorCode_static ''TRANSPORT_UNKNOWN_CREDENTIALS_ERROR'' = JNum 1003"
      "SmartErrorCode_static ''LOGIN_ERROR'' = JNum (- 1501)"
    by (simp_all add: SmartErrorCode_static_def SmartErrorCode_entries_def)
  have h: "SmartProtocol_handleResponseErrorCode ''10.0.0.2''
             \<lparr>error_code = JNum (- 1003), reply_method = None,
               reply_result = RUndefined, responses = None\<rparr>
             ''multi-request-batch-1-of-1'' True
         = Inl \<lparr>exn_class = DeviceError,
             exn_message = ''Error querying device: 10.0.0.2: JSON_DECODE_FAIL_ERROR(-1003)''
                @ '' for method: multi-request-batch-1-of-1'',
             exn_errorCode = JErrObj ''JSON_DECODE_FAIL_ERROR'' (JNum (- 1003))\<rparr>"
    by (simp add: SmartProtocol_handleResponseErrorCode_def Let_def
          fromInt_JSON_DECODE_FAIL_ERROR st js_has_def SMART_RETRYABLE_ERRORS_def
          SMART_AUTHENTICATION_ERRORS_def new_device_error_def js_or_def
          error_code_text_JSON_DECODE)
  have concrete: "executeMultipleQuery
        (\<lambda>k. Inr \<lparr>error_code = JNum (- 1003), reply_method = None,
                   reply_result = RUndefined, responses = None\<rparr>)
        SmartProtocol_handleResponseErrorCode SmartProtocol_handleResponseErrorCode
        (new_SmartProtocol ''10.0.0.2'' None)
        [(''get_device_info'', None), (''get_device_usage'', None)] True
     = (\<lparr>sp_host = ''10.0.0.2'', multiRequestBatchSize = 5, methodMissingLogged = False,
         sp_sent = [WMulti [(''get_device_info'', None), (''get_device_usage'', None)]],
         sp_events = []\<rparr>,
        Inl \<lparr>exn_class = DeviceError,
             exn_message = ''Error querying device: 10.0.0.2: JSON_DECODE_FAIL_ERROR(-1003)''
                @ '' for method: multi-request-batch-1-of-1'',
             exn_errorCode = JErrObj ''JSON_DECODE_FAIL_ERROR'' (JNum (- 1003))\<rparr>)"
    by (simp add: executeMultipleQuery_def Let_def new_SmartProtocol_def
          DEFAULT_MULTI_REQUEST_BATCH_SIZE_def FORCE_SINGLE_REQUEST_def make_batches_two
          transport_send_def batch_name_1_1 h instanceof_def js_has_def st)
  show ?thesis using general concrete by blast
qed

subsection \<open>Pagination\<close>












section \<open>Properties of the IoT retry loop\<close>


lemma instanceof_Kasa_sub:
  "instanceof e ConnectionError \<Longrightarrow> instanceof e KasaException"
  "instanceof e AuthenticationError \<Longrightarrow> instanceof e KasaException"
  "instanceof e RetryableError \<Longrightarrow> instanceof e KasaException"
  "instanceof e TimeoutError \<Longrightarrow> instanceof e KasaException"
  "instanceof e DeviceError \<Longrightarrow> instanceof e KasaException"
  by (cases "exn_class e"; simp add: instanceof_def)+

lemma instanceof_exclusive:
  "instanceof e RetryableError \<Longrightarrow> \<not> instanceof e ConnectionError \<and> \<not> instanceof e AuthenticationError"
  "instanceof e TimeoutError \<Longrightarrow> \<not> instanceof e ConnectionError \<and> \<not> instanceof e AuthenticationError \<and> \<not> instanceof e RetryableError"
  "instanceof e AuthenticationError \<Longrightarrow> \<not> instanceof e ConnectionError"
  by (cases "exn_class e"; simp add: instanceof_def)+

lemma iot_step_swallow:
  assumes "tr retry = Inl e" "\<not> instanceof e KasaException" "int retry \<le> retryCount"
  shows "IotProtocol_query_loop tr retryCount retry =
         log_more [Send retry] (IotProtocol_query_loop tr retryCount (retry + 1))"
  using assms instanceof_Kasa_sub[of e]
  by (subst IotProtocol_query_loop.simps) auto

lemma iot_all_swallowed:
  assumes "\<forall>k. retry \<le> k \<and> int k \<le> retryCount \<longrightarrow> (\<exists>e. tr k = Inl e \<and> \<not> instanceof e KasaException)"
  shows "IotProtocol_query_loop tr retryCount retry =
         (map Send [retry ..< nat (retryCount + 1)], Inl unreachable_error)"
  using assms
proof (induction tr retryCount retry rule: IotProtocol_query_loop.induct)
  case (1 tr retryCount retry)
  show ?case
  proof (cases "int retry \<le> retryCount")
    case False
    then show ?thesis by (subst IotProtocol_query_loop.simps) simp
  next
    case True
    from "1.prems" True obtain e where e: "tr retry = Inl e" "\<not> instanceof e KasaException"
      by blast
    have nots: "\<not> instanceof e ConnectionError" "\<not> instanceof e AuthenticationError"
       "\<not> instanceof e RetryableError" "\<not> instanceof e TimeoutError"
      using e(2) instanceof_Kasa_sub[of e] by blast+
    have IH: "IotProtocol_query_loop tr retryCount (retry + 1) =
         (map Send [retry + 1 ..< nat (retryCount + 1)], Inl unreachable_error)"
      using "1.IH"(4) True e nots "1.prems" by auto
    have "[retry ..< nat (retryCount + 1)] = retry # [retry + 1 ..< nat (retryCount + 1)]"
      using True by (simp add: upt_conv_Cons)
    then show ?thesis
      using iot_step_swallow[of tr retry e retryCount] e True IH by (simp add: log_more_def)
  qed
qed

lemma iot_timeout:
  assumes "tr retry = Inl e" "int retry \<le> retryCount" "instanceof e TimeoutError"
  shows "IotProtocol_query_loop tr retryCount retry =
              (if int retry \<ge> retryCount then ([Send retry, Reset], Inl e)
               else log_more [Send retry, Reset, Sleep 1000]
                      (IotProtocol_query_loop tr retryCount (retry + 1)))"
  using assms instanceof_exclusive[of e]
  by (subst IotProtocol_query_loop.simps) (simp add: BACKOFF_SECONDS_AFTER_TIMEOUT_def)

lemma iot_connection:
  assumes "tr retry = Inl e" "int retry \<le> retryCount" "instanceof e ConnectionError"
  shows "IotProtocol_query_loop tr retryCount retry =
              (if int retry \<ge> retryCount then ([Send retry], Inl e)
               else log_more [Send retry] (IotProtocol_query_loop tr retryCount (retry + 1)))"
  using assms by (subst IotProtocol_query_loop.simps) simp

lemma iot_retryable:
  assumes "tr retry = Inl e" "int retry \<le> retryCount" "instanceof e RetryableError"
  shows "IotProtocol_query_loop tr retryCount retry =
              (if int retry \<ge> retryCount then ([Send retry, Reset], Inl e)
               else log_more [Send retry, Reset]
                      (IotProtocol_query_loop tr retryCount (retry + 1)))"
  using assms instanceof_exclusive[of e]
  by (subst IotProtocol_query_loop.simps) simp

lemma iot_auth:
  assumes "tr retry = Inl e" "int retry \<le> retryCount" "instanceof e AuthenticationError"
  shows "IotProtocol_query_loop tr retryCount retry = ([Send retry, Reset], Inl e)"
  using assms instanceof_exclusive[of e]
  by (subst IotProtocol_query_loop.simps) simp

lemma iot_other_kasa:
  assumes "tr retry = Inl e" "int retry \<le> retryCount" "instanceof e KasaException"
     "\<not> instanceof e TimeoutError" "\<not> instanceof e ConnectionError" "\<not> instanceof e RetryableError"
  shows "IotProtocol_query_loop tr retryCount retry = ([Send retry, Reset], Inl e)"
  using assms
  by (subst IotProtocol_query_loop.simps) simp


lemma sends_append: "sends (xs @ ys) = sends xs @ sends ys"
  by (induction xs rule: sends.induct) auto

lemma iot_retryable_step:
  assumes "tr retry = Inl e" "int retry \<le> retryCount" "retryable_kind e"
  shows "\<exists>evs. sends evs = [retry]
          \<and> IotProtocol_query_loop tr retryCount retry =
              (if int retry \<ge> retryCount then (evs, Inl e)
               else log_more evs (IotProtocol_query_loop tr retryCount (retry + 1)))"
proof -
  consider "instanceof e TimeoutError" | "instanceof e ConnectionError" | "instanceof e RetryableError"
    using assms(3) by (auto simp: retryable_kind_def)
  then show ?thesis
  proof cases
    case 1
    show ?thesis
    proof (cases "int retry \<ge> retryCount")
      case True
      show ?thesis
        by (rule exI[of _ "[Send retry, Reset]"])
           (simp add: iot_timeout[of tr retry e retryCount, OF assms(1,2) 1] True)
    next
      case False
      show ?thesis
        by (rule exI[of _ "[Send retry, Reset, Sleep 1000]"])
           (simp add: iot_timeout[of tr retry e retryCount, OF assms(1,2) 1] False)
    qed
  next
    case 2
    show ?thesis
      by (rule exI[of _ "[Send retry]"])
         (simp add: iot_connection[of tr retry e retryCount, OF assms(1,2) 2])
  next
    case 3
    show ?thesis
      by (rule exI[of _ "[Send retry, Reset]"])
         (simp add: iot_retryable[of tr retry e retryCount, OF assms(1,2) 3])
  qed
qed

lemma iot_exhaust:
  assumes "\<forall>k. retry \<le> k \<and> int k \<le> retryCount \<longrightarrow> (\<exists>e. tr k = Inl e \<and> retryable_kind e)"
      and "int retry \<le> retryCount"
  shows "snd (IotProtocol_query_loop tr retryCount retry) = tr (nat retryCount)
       \<and> sends (fst (IotProtocol_query_loop tr retryCount retry)) = [retry ..< nat retryCount + 1]"
  using assms
proof (induction "nat (retryCount - int retry)" arbitrary: retry)
  case 0
  then have eq: "nat retryCount = retry" "int retry \<ge> retryCount" by simp_all
  from "0.prems" obtain e where e: "tr retry = Inl e" "retryable_kind e" by blast
  obtain evs where evs: "sends evs = [retry]"
      "IotProtocol_query_loop tr retryCount retry = (evs, Inl e)"
    using iot_retryable_step[of tr retry e retryCount] e "0.prems"(2) eq(2) by auto
  show ?case using evs e eq by simp
next
  case (Suc m)
  then have lt: "\<not> int retry \<ge> retryCount" "int (retry + 1) \<le> retryCount"
      "m = nat (retryCount - int (retry + 1))"
    by simp_all
  from "Suc.prems" obtain e where e: "tr retry = Inl e" "retryable_kind e" by blast
  obtain evs where evs: "sends evs = [retry]"
      "IotProtocol_query_loop tr retryCount retry =
         log_more evs (IotProtocol_query_loop tr retryCount (retry + 1))"
    using iot_retryable_step[of tr retry e retryCount] e "Suc.prems"(2) lt(1) by auto
  have IH: "snd (IotProtocol_query_loop tr retryCount (retry + 1)) = tr (nat retryCount)
       \<and> sends (fst (IotProtocol_query_loop tr retryCount (retry + 1)))
           = [retry + 1 ..< nat retryCount + 1]"
    using Suc.hyps(1)[OF lt(3) _ lt(2)] Suc.prems(1) by auto
  have "retry \<le> nat retryCount" using "Suc.prems"(2) by linarith
  then have up: "[retry ..< nat retryCount + 1] = retry # [retry + 1 ..< nat retryCount + 1]"
    by (simp add: upt_conv_Cons)
  show ?case using evs IH up by (simp add: log_more_def sends_append)
qed


text \<open>
  Claim C10.  When the transport throws an error outside the \<open>KasaException\<close>
  hierarchy, the loop logs nothing but the send (no reset), drops the error and goes on
  with the next turn; and when every attempt within the budget fails so, the query has
  made \<open>retryCount + 1\<close> sends and raises the generic \<open>KasaException\<close>
  "Query reached somehow to unreachable", not any of the errors thrown.
\<close>

theorem C10_non_library_error_is_swallowed:
  "(\<forall>retry e. tr retry = Inl e \<and> \<not> instanceof e KasaException \<and> int retry \<le> retryCount \<longrightarrow>
        IotProtocol_query_loop tr retryCount retry =
          log_more [Send retry] (IotProtocol_query_loop tr retryCount (retry + 1)))
   \<and> ((\<forall>k. int k \<le> retryCount \<longrightarrow> (\<exists>e. tr k = Inl e \<and> \<not> instanceof e KasaException)) \<longrightarrow>
        IotProtocol_query tr retryCount =
          (map Send [0 ..< nat (retryCount + 1)],
           Inl \<lparr>exn_class = KasaException,
                exn_message = ''Query reached somehow to unreachable'',
                exn_errorCode = JUndefined\<rparr>))"
proof (intro conjI allI impI)
  fix retry e
  assume "tr retry = Inl e \<and> \<not> instanceof e KasaException \<and> int retry \<le> retryCount"
  then show "IotProtocol_query_loop tr retryCount retry =
          log_more [Send retry] (IotProtocol_query_loop tr retryCount (retry + 1))"
    using iot_step_swallow[of tr retry e retryCount] by blast
next
  assume "\<forall>k. int k \<le> retryCount \<longrightarrow> (\<exists>e. tr k = Inl e \<and> \<not> instanceof e KasaException)"
  then have "IotProtocol_query_loop tr retryCount 0 =
         (map Send [0 ..< nat (retryCount + 1)], Inl unreachable_error)"
    using iot_all_swallowed[of 0 retryCount tr] by simp
  then show "IotProtocol_query tr retryCount =
          (map Send [0 ..< nat (retryCount + 1)],
           Inl \<lparr>exn_class = KasaException,
                exn_message = ''Query reached somehow to unreachable'',
                exn_errorCode = JUndefined\<rparr>)"
    by (simp add: IotProtocol_query_def unreachable_error_def new_plain_def)
qed

text \<open>Claim C10, at a transport that always throws a plain \<open>Error\<close>, with two
  retries.\<close>

theorem C10_non_library_error_is_swallowed_witness:
  "IotProtocol_query (\<lambda>k. Inl (new_plain PlainError ''socket hang up'') :: exn + string) 2 =
     ([Send 0, Send 1, Send 2],
      Inl \<lparr>exn_class = KasaException,
           exn_message = ''Query reached somehow to unreachable'',
           exn_errorCode = JUndefined\<rparr>)"
proof -
  have h: "\<forall>k. int k \<le> 2 \<longrightarrow>
             (\<exists>e. (Inl (new_plain PlainError ''socket hang up'') :: exn + string) = Inl e
                  \<and> \<not> instanceof e KasaException)"
    by (simp add: instanceof_def new_plain_def)
  have u: "[0 ..< nat (2 + 1)] = [0, 1, 2]" by (simp add: upt_rec)
  show ?thesis
    using C10_non_library_error_is_swallowed
            [of "\<lambda>k. Inl (new_plain PlainError ''socket hang up'') :: exn + string" 2] h u
    by simp
qed

text \<open>
  Claim C4 as stated fails at one point: after a \<open>RetryableError\<close> the IoT loop resets
  the transport and sends again at once.  With a first attempt that throws
  \<open>RetryableError\<close> and a second that answers, the log has no sleep at all.
\<close>

theorem C4_retryable_error_has_no_backoff_counterexample:
  "fst (IotProtocol_query
          (\<lambda>k. if k = 0 then Inl (new_device_error RetryableError ''device busy'' JNull)
                else Inr ''ok'') 3)
     = [Send 0, Reset, Send 1]
   \<and> Sleep 1000 \<notin> set (fst (IotProtocol_query
          (\<lambda>k. if k = 0 then Inl (new_device_error RetryableError ''device busy'' JNull)
                else Inr ''ok'') 3))"
  by (simp add: IotProtocol_query_def IotProtocol_query_loop.simps instanceof_def
        new_device_error_def js_or_def log_more_def)

text \<open>
  Claim C4, amended.  For a turn \<open>retry\<close> within the budget whose send throws
  \<open>e\<close>: on \<open>TimeoutError\<close> the loop resets the transport and, unless the budget is
  used up, sleeps 1000 ms and retries; on \<open>ConnectionError\<close> it retries at once without
  a reset; on \<open>RetryableError\<close> it resets and retries at once, without a sleep; on
  \<open>AuthenticationError\<close>, and on any other \<open>KasaException\<close>, it resets and throws
  \<open>e\<close>.  In the three retried cases \<open>e\<close> is thrown when \<open>retry\<close> has reached
  \<open>retryCount\<close>; so a transport that fails every attempt with errors of these kinds is
  sent to \<open>retryCount + 1\<close> times and the last error is the one thrown.
\<close>

theorem C4_iot_retry_policy:
  assumes "tr retry = Inl e" and "int retry \<le> retryCount"
  shows "(instanceof e TimeoutError \<longrightarrow>
            IotProtocol_query_loop tr retryCount retry =
              (if int retry \<ge> retryCount then ([Send retry, Reset], Inl e)
               else log_more [Send retry, Reset, Sleep 1000]
                      (IotProtocol_query_loop tr retryCount (retry + 1))))
       \<and> (instanceof e ConnectionError \<longrightarrow>
            IotProtocol_query_loop tr retryCount retry =
              (if int retry \<ge> retryCount then ([Send retry], Inl e)
               else log_more [Send retry] (IotProtocol_query_loop tr retryCount (retry + 1))))
       \<and> (instanceof e RetryableError \<longrightarrow>
            IotProtocol_query_loop tr retryCount retry =
              (if int retry \<ge> retryCount then ([Send retry, Reset], Inl e)
               else log_more [Send retry, Reset]
                      (IotProtocol_query_loop tr retryCount (retry + 1))))
       \<and> (instanceof e AuthenticationError \<longrightarrow>
            IotProtocol_query_loop tr retryCount retry = ([Send retry, Reset], Inl e))
       \<and> (instanceof e KasaException \<and> \<not> instanceof e TimeoutError
            \<and> \<not> instanceof e ConnectionError \<and> \<not> instanceof e RetryableError \<longrightarrow>
            IotProtocol_query_loop tr retryCount retry = ([Send retry, Reset], Inl e))
       \<and> ((\<forall>k. int k \<le> retryCount \<longrightarrow> (\<exists>e'. tr k = Inl e' \<and> retryable_kind e')) \<longrightarrow>
            snd (IotProtocol_query tr retryCount) = tr (nat retryCount)
            \<and> sends (fst (IotProtocol_query tr retryCount)) = [0 ..< nat retryCount + 1])"
proof (intro conjI impI)
  assume "instanceof e TimeoutError"
  then show "IotProtocol_query_loop tr retryCount retry =
              (if int retry \<ge> retryCount then ([Send retry, Reset], Inl e)
               else log_more [Send retry, Reset, Sleep 1000]
                      (IotProtocol_query_loop tr retryCount (retry + 1)))"
    using iot_timeout[of tr retry e retryCount] assms by blast
next
  assume "instanceof e ConnectionError"
  then show "IotProtocol_query_loop tr retryCount retry =
              (if int retry \<ge> retryCount then ([Send retry], Inl e)
               else log_more [Send retry] (IotProtocol_query_loop tr retryCount (retry + 1)))"
    using iot_connection[of tr retry e retryCount] assms by blast
next
  assume "instanceof e RetryableError"
  then show "IotProtocol_query_loop tr retryCount retry =
              (if int retry \<ge> retryCount then ([Send retry, Reset], Inl e)
               else log_more [Send retry, Reset]
                      (IotProtocol_query_loop tr retryCount (retry + 1)))"
    using iot_retryable[of tr retry e retryCount] assms by blast
next
  assume "instanceof e AuthenticationError"
  then show "IotProtocol_query_loop tr retryCount retry = ([Send retry, Reset], Inl e)"
    using iot_auth[of tr retry e retryCount] assms by blast
next
  assume "instanceof e KasaException \<and> \<not> instanceof e TimeoutError
            \<and> \<not> instanceof e ConnectionError \<and> \<not> instanceof e RetryableError"
  then show "IotProtocol_query_loop tr retryCount retry = ([Send retry, Reset], Inl e)"
    using iot_other_kasa[of tr retry e retryCount] assms by blast
next
  assume a: "\<forall>k. int k \<le> retryCount \<longrightarrow> (\<exists>e'. tr k = Inl e' \<and> retryable_kind e')"
  have z: "int 0 \<le> retryCount" using assms(2) by linarith
  show "snd (IotProtocol_query tr retryCount) = tr (nat retryCount)"
    using iot_exhaust[of 0 retryCount tr] a z by (simp add: IotProtocol_query_def)
next
  assume a: "\<forall>k. int k \<le> retryCount \<longrightarrow> (\<exists>e'. tr k = Inl e' \<and> retryable_kind e')"
  have z: "int 0 \<le> retryCount" using assms(2) by linarith
  show "sends (fst (IotProtocol_query tr retryCount)) = [0 ..< nat retryCount + 1]"
    using iot_exhaust[of 0 retryCount tr] a z by (simp add: IotProtocol_query_def)
qed


text \<open>Claim C4, amended, at a transport that times out, then is busy, then answers, and
  at one that always loses the connection.\<close>

theorem C4_iot_retry_policy_witness:
  "IotProtocol_query_loop
     (\<lambda>k. if k = 0 then Inl (new_plain TimeoutError ''timed out'')
           else if k = 1 then Inl (new_device_error RetryableError ''device busy'' JNull)
           else Inr ''ok'') 3 0
     = ([Send 0, Reset, Sleep 1000, Send 1, Reset, Send 2], Inr ''ok'')
   \<and> snd (IotProtocol_query (\<lambda>k. Inl (new_plain ConnectionError ''reset'') :: exn + string) 1)
       = Inl (new_plain ConnectionError ''reset'')
   \<and> sends (fst (IotProtocol_query (\<lambda>k. Inl (new_plain ConnectionError ''reset'') :: exn + string) 1))
       = [0, 1]"
proof -
  let ?tr = "\<lambda>k::nat. if k = 0 then Inl (new_plain TimeoutError ''timed out'')
           else if k = 1 then Inl (new_device_error RetryableError ''device busy'' JNull)
           else (Inr ''ok'' :: exn + string)"
  let ?t = "new_plain TimeoutError ''timed out''"
  let ?r = "new_device_error RetryableError ''device busy'' JNull"
  have t: "instanceof ?t TimeoutError" by (simp add: instanceof_def new_plain_def)
  have r: "instanceof ?r RetryableError" by (simp add: instanceof_def new_device_error_def)
  have s0: "IotProtocol_query_loop ?tr 3 0 =
              log_more [Send 0, Reset, Sleep 1000] (IotProtocol_query_loop ?tr 3 (0 + 1))"
    using C4_iot_retry_policy[of ?tr 0 ?t 3] t by simp
  have s1: "IotProtocol_query_loop ?tr 3 1 =
              log_more [Send 1, Reset] (IotProtocol_query_loop ?tr 3 (1 + 1))"
    using C4_iot_retry_policy[of ?tr 1 ?r 3] r by simp
  have s2: "IotProtocol_query_loop ?tr 3 2 = ([Send 2], Inr ''ok'')"
    by (subst IotProtocol_query_loop.simps) simp
  have first: "IotProtocol_query_loop ?tr 3 0
     = ([Send 0, Reset, Sleep 1000, Send 1, Reset, Send 2], Inr ''ok'')"
    using s0 s1 s2 by (simp add: log_more_def numeral_2_eq_2)
  let ?c = "\<lambda>k::nat. Inl (new_plain ConnectionError ''reset'') :: exn + string"
  have k: "\<forall>k. int k \<le> 1 \<longrightarrow> (\<exists>e'. ?c k = Inl e' \<and> retryable_kind e')"
    by (simp add: retryable_kind_def instanceof_def new_plain_def)
  have u: "[0 ..< nat 1 + 1] = [0, 1]" by (simp add: upt_rec)
  have second: "snd (IotProtocol_query ?c 1) = Inl (new_plain ConnectionError ''reset'')
       \<and> sends (fst (IotProtocol_query ?c 1)) = [0, 1]"
    using C4_iot_retry_policy[of ?c 0 "new_plain ConnectionError ''reset''" 1] k u by simp
  show ?thesis using first second by blast
qed

section \<open>Properties of the KLAP encryption session\<close>

text \<open>A signed 32-bit number written big-endian is read back unchanged.\<close>

lemma be_sum:
  fixes u :: int
  shows "(u div 16777216) * 16777216 + ((u div 65536) mod 256) * 65536
           + ((u div 256) mod 256) * 256 + u mod 256 = u"
proof -
  have a: "u div 65536 = (u div 256) div 256" by simp
  have b: "u div 16777216 = ((u div 256) div 256) div 256" by simp
  define v where "v = u div 256"
  define w where "w = v div 256"
  define t where "t = w div 256"
  define u0 where "u0 = u mod 256"
  define v0 where "v0 = v mod 256"
  define w0 where "w0 = w mod 256"
  have 1: "u = v * 256 + u0" by (simp add: v_def u0_def)
  have 2: "v = w * 256 + v0" by (simp add: w_def v0_def)
  have 3: "w = t * 256 + w0" by (simp add: t_def w0_def)
  have "t * 16777216 + w0 * 65536 + v0 * 256 + u0 = u"
    using 1 2 3 by linarith
  then show ?thesis
    unfolding a b t_def w0_def v0_def u0_def w_def v_def .
qed

lemma length_int32be [simp]: "length (int32be x) = 4"
  by (simp add: int32be_def Let_def)

lemma uint_byte_of_int: "uint (of_int a :: 8 word) = a mod 256"
  by (simp add: uint_word_of_int_eq take_bit_eq_mod)

lemma readInt32BE_int32be:
  assumes "- (2 ^ 31) \<le> x" "x \<le> 2 ^ 31 - 1"
  shows "readInt32BE (int32be x) = Inr x"
proof -
  define u where "u = x mod 4294967296"
  have u: "0 \<le> u" "u < 4294967296" by (simp_all add: u_def)
  have top: "(u div 16777216) mod 256 = u div 16777216"
  proof -
    have "0 \<le> u div 16777216" using u by (simp add: pos_imp_zdiv_nonneg_iff)
    moreover have "u div 16777216 < 256" using u by (simp add: div_less_iff_less_mult)
    ultimately show ?thesis by simp
  qed
  have sum: "(u div 16777216) * 16777216 + ((u div 65536) mod 256) * 65536
           + ((u div 256) mod 256) * 256 + u mod 256 = u"
    by (rule be_sum)
  have ux: "(if u \<ge> 2147483648 then u - 4294967296 else u) = x"
  proof (cases "x \<ge> 0")
    case True
    then have "u = x" using assms by (simp add: u_def)
    then show ?thesis using assms by simp
  next
    case False
    have "(x + 4294967296) mod 4294967296 = x mod 4294967296" by simp
    moreover have "(x + 4294967296) mod 4294967296 = x + 4294967296"
      using False assms by (intro mod_pos_pos_trivial) simp_all
    ultimately have "u = x + 4294967296" by (simp add: u_def)
    then show ?thesis using False assms by simp
  qed
  have bytes: "int32be x = [of_int (u div 16777216), of_int ((u div 65536) mod 256),
                            of_int ((u div 256) mod 256), of_int (u mod 256)]"
    by (simp add: int32be_def Let_def u_def)
  have val: "uint (of_int (u div 16777216) :: 8 word) * 2 ^ 24
               + uint (of_int ((u div 65536) mod 256) :: 8 word) * 2 ^ 16
               + uint (of_int ((u div 256) mod 256) :: 8 word) * 2 ^ 8
               + uint (of_int (u mod 256) :: 8 word) = u"
    unfolding uint_byte_of_int top mod_mod_trivial using sum by simp
  show ?thesis
    unfolding bytes readInt32BE_def list.case Let_def val
    using ux by (simp split: if_splits)
qed


lemma encrypt_state: "fst (KlapEncryptionSession_encrypt cr s msg) = s\<lparr>klap_seq := klap_seq s + 1\<rparr>"
  by (simp add: KlapEncryptionSession_encrypt_def Let_def split: sum.splits)

lemma decrypt_state: "fst (KlapEncryptionSession_decrypt cr s msg) = s"
  by (simp add: KlapEncryptionSession_decrypt_def Let_def split: sum.splits option.splits)

lemma klap_run_state:
  "klap_run cr s calls = s\<lparr>klap_seq := klap_seq s + int (encrypt_calls calls)\<rparr>"
proof (induction calls arbitrary: s)
  case Nil
  then show ?case by simp
next
  case (Cons c calls)
  then show ?case by (cases c) (simp_all add: encrypt_state decrypt_state)
qed

lemma encrypt_result:
  assumes "snd (KlapEncryptionSession_encrypt cr s msg) = Inr (frame, q)"
  shows "q = klap_seq s + 1
       \<and> (\<exists>iv. ivSeq (fst (KlapEncryptionSession_encrypt cr s msg)) = Inr iv
              \<and> iv = klap_iv s @ int32be q
              \<and> readInt32BE (drop (length iv - 4) iv) = Inr q
              \<and> frame = sha256 cr (klap_sig s @ int32be q
                                     @ cbc_encrypt cr (klap_key s) iv (pkcs7_pad msg))
                        @ cbc_encrypt cr (klap_key s) iv (pkcs7_pad msg))"
proof -
  have range: "- (2 ^ 31) \<le> klap_seq s + 1 \<and> klap_seq s + 1 \<le> 2 ^ 31 - 1"
    using assms
    by (auto simp: KlapEncryptionSession_encrypt_def Let_def ivSeq_def packSignedLong_def
             split: if_splits)
  then have p: "packSignedLong (klap_seq s + 1) = Inr (int32be (klap_seq s + 1))"
    by (simp add: packSignedLong_def)
  have q: "q = klap_seq s + 1"
      "frame = sha256 cr (klap_sig s @ int32be (klap_seq s + 1)
                 @ cbc_encrypt cr (klap_key s) (klap_iv s @ int32be (klap_seq s + 1)) (pkcs7_pad msg))
               @ cbc_encrypt cr (klap_key s) (klap_iv s @ int32be (klap_seq s + 1)) (pkcs7_pad msg)"
    using assms p by (auto simp: KlapEncryptionSession_encrypt_def Let_def ivSeq_def)
  have r: "readInt32BE (int32be (klap_seq s + 1)) = Inr (klap_seq s + 1)"
    using range readInt32BE_int32be by blast
  show ?thesis
    using q p r by (simp add: encrypt_state ivSeq_def)
qed

lemma encrypt_returns:
  assumes "- (2 ^ 31) \<le> klap_seq s + 1" "klap_seq s + 1 \<le> 2 ^ 31 - 1"
  shows "\<exists>frame. snd (KlapEncryptionSession_encrypt cr s msg) = Inr (frame, klap_seq s + 1)"
  using assms
  by (simp add: KlapEncryptionSession_encrypt_def Let_def ivSeq_def packSignedLong_def)

text \<open>
  Claim C7. For every session \<open>s\<close> and every sequence of \<open>encrypt\<close> and \<open>decrypt\<close>
  calls, the sequence number afterwards is the one before plus the number of \<open>encrypt\<close>
  calls, and no other field has changed: \<open>decrypt\<close> leaves the session as it is and
  \<open>encrypt\<close> only adds 1 to \<open>seq\<close>, before encrypting. While the incremented number fits
  a signed 32-bit integer \<open>encrypt\<close> returns; and whenever it returns, the number returned
  is the incremented \<open>seq\<close>, the IV used is the session's 12-byte IV followed by that number
  in 4 big-endian bytes (so reading the last 4 bytes of the IV gives the returned number back),
  and the frame is the signature over \<open>sig\<close>, the number and the ciphertext, followed by the
  ciphertext.
\<close>

theorem C7_klap_sequence_number:
  "klap_seq (klap_run cr s calls) = klap_seq s + int (encrypt_calls calls)
   \<and> (klap_run cr s calls)\<lparr>klap_seq := klap_seq s\<rparr> = s
   \<and> fst (KlapEncryptionSession_decrypt cr s msg) = s
   \<and> fst (KlapEncryptionSession_encrypt cr s msg) = s\<lparr>klap_seq := klap_seq s + 1\<rparr>
   \<and> (- (2 ^ 31) \<le> klap_seq s + 1 \<and> klap_seq s + 1 \<le> 2 ^ 31 - 1 \<longrightarrow>
        (\<exists>frame. snd (KlapEncryptionSession_encrypt cr s msg) = Inr (frame, klap_seq s + 1)))
   \<and> (\<forall>frame q. snd (KlapEncryptionSession_encrypt cr s msg) = Inr (frame, q) \<longrightarrow>
        q = klap_seq s + 1
        \<and> (\<exists>iv. ivSeq (fst (KlapEncryptionSession_encrypt cr s msg)) = Inr iv
              \<and> iv = klap_iv s @ int32be q
              \<and> readInt32BE (drop (length iv - 4) iv) = Inr q
              \<and> frame = sha256 cr (klap_sig s @ int32be q
                                     @ cbc_encrypt cr (klap_key s) iv (pkcs7_pad msg))
                        @ cbc_encrypt cr (klap_key s) iv (pkcs7_pad msg)))"
proof (intro conjI allI impI)
  show "klap_seq (klap_run cr s calls) = klap_seq s + int (encrypt_calls calls)"
    by (simp add: klap_run_state)
  show "(klap_run cr s calls)\<lparr>klap_seq := klap_seq s\<rparr> = s"
    by (simp add: klap_run_state)
  show "fst (KlapEncryptionSession_decrypt cr s msg) = s" by (rule decrypt_state)
  show "fst (KlapEncryptionSession_encrypt cr s msg) = s\<lparr>klap_seq := klap_seq s + 1\<rparr>"
    by (rule encrypt_state)
next
  assume "- (2 ^ 31) \<le> klap_seq s + 1 \<and> klap_seq s + 1 \<le> 2 ^ 31 - 1"
  then show "\<exists>frame. snd (KlapEncryptionSession_encrypt cr s msg) = Inr (frame, klap_seq s + 1)"
    using encrypt_returns by blast
next
  fix frame q
  assume a: "snd (KlapEncryptionSession_encrypt cr s msg) = Inr (frame, q)"
  show "q = klap_seq s + 1" using encrypt_result[OF a] by blast
  show "\<exists>iv. ivSeq (fst (KlapEncryptionSession_encrypt cr s msg)) = Inr iv
              \<and> iv = klap_iv s @ int32be q
              \<and> readInt32BE (drop (length iv - 4) iv) = Inr q
              \<and> frame = sha256 cr (klap_sig s @ int32be q
                                     @ cbc_encrypt cr (klap_key s) iv (pkcs7_pad msg))
                        @ cbc_encrypt cr (klap_key s) iv (pkcs7_pad msg)"
    using encrypt_result[OF a] by blast
qed


text \<open>
  Claim C7 at a session with sequence number 100: after three \<open>encrypt\<close> calls and one
  \<open>decrypt\<close> call it is 103, the first \<open>encrypt\<close> returns 101, and its IV ends with the
  bytes 0, 0, 0, 101.
\<close>

theorem C7_klap_sequence_number_witness:
  "klap_seq (klap_run
       \<lparr>sha256 = take 32, cbc_encrypt = (\<lambda>k iv d. d), cbc_decrypt = (\<lambda>k iv d. Some d)\<rparr>
       \<lparr>localSeed = [], remoteSeed = [], userHash = [], klap_key = [],
        klap_iv = [0, 0, 0, 0, 0, 0, 0, 0, 0, 0, 0, 0], klap_seq = 100, klap_sig = []\<rparr>
       [Encrypt [1], Decrypt [], Encrypt [2], Encrypt [3]]) = 103
   \<and> (\<exists>frame. snd (KlapEncryptionSession_encrypt
       \<lparr>sha256 = take 32, cbc_encrypt = (\<lambda>k iv d. d), cbc_decrypt = (\<lambda>k iv d. Some d)\<rparr>
       \<lparr>localSeed = [], remoteSeed = [], userHash = [], klap_key = [],
        klap_iv = [0, 0, 0, 0, 0, 0, 0, 0, 0, 0, 0, 0], klap_seq = 100, klap_sig = []\<rparr>
       [1]) = Inr (frame, 101))
   \<and> ivSeq (fst (KlapEncryptionSession_encrypt
       \<lparr>sha256 = take 32, cbc_encrypt = (\<lambda>k iv d. d), cbc_decrypt = (\<lambda>k iv d. Some d)\<rparr>
       \<lparr>localSeed = [], remoteSeed = [], userHash = [], klap_key = [],
        klap_iv = [0, 0, 0, 0, 0, 0, 0, 0, 0, 0, 0, 0], klap_seq = 100, klap_sig = []\<rparr>
       [1])) = Inr [0, 0, 0, 0, 0, 0, 0, 0, 0, 0, 0, 0, 0, 0, 0, 101]"
proof -
  let ?cr = "\<lparr>sha256 = take 32, cbc_encrypt = (\<lambda>k iv d. d), cbc_decrypt = (\<lambda>k iv d. Some d)\<rparr>"
  let ?s = "\<lparr>localSeed = [], remoteSeed = [], userHash = [], klap_key = [],
        klap_iv = [0, 0, 0, 0, 0, 0, 0, 0, 0, 0, 0, 0], klap_seq = 100, klap_sig = []\<rparr>"
  note t = C7_klap_sequence_number
             [of ?cr ?s "[Encrypt [1], Decrypt [], Encrypt [2], Encrypt [3]]" "[1]"]
  have a: "klap_seq (klap_run ?cr ?s [Encrypt [1], Decrypt [], Encrypt [2], Encrypt [3]]) = 103"
    using t by (simp del: klap_run.simps)
  have b: "\<exists>frame. snd (KlapEncryptionSession_encrypt ?cr ?s [1]) = Inr (frame, 101)"
    using t by (simp del: klap_run.simps)
  have c: "ivSeq (fst (KlapEncryptionSession_encrypt ?cr ?s [1]))
             = Inr [0, 0, 0, 0, 0, 0, 0, 0, 0, 0, 0, 0, 0, 0, 0, 101]"
    using t by (simp del: klap_run.simps add: ivSeq_def packSignedLong_def int32be_def)
  show ?thesis using a b c by blast
qed

section \<open>Properties of the XOR codec\<close>

lemma xor_roundtrip: "xorEncryptedPayload k (xorPayload k bs) = bs"
  by (induction bs arbitrary: k) (simp_all add: Let_def xor.assoc[symmetric])

lemma length_xorPayload [simp]: "length (xorPayload k bs) = length bs"
  by (induction bs arbitrary: k) (simp_all add: Let_def)

lemma dec1:
  assumes "u < 0x80"
  shows "utf8_decode_bytes (u # rest) = u # utf8_decode_bytes rest"
  using assms by simp

lemma dec2:
  assumes "0x80 \<le> u" "u < 0x800"
  shows "utf8_decode_bytes ((0xC0 + u div 64) # (0x80 + u mod 64) # rest)
           = u # utf8_decode_bytes rest"
proof -
  have a: "\<not> (0xC0 + u div 64 < 0x80)" by simp
  have b: "0xC2 \<le> 0xC0 + u div 64" using assms by simp
  have c: "0xC0 + u div 64 \<le> 0xDF" using assms by simp
  have d: "is_cont (0x80 + u mod 64)" by (simp add: is_cont_def)
  have e: "u div 64 * 64 + u mod 64 = u" by simp
  show ?thesis using a b c d e by simp
qed


lemma split3: "(u div 4096) * 4096 + ((u div 64) mod 64) * 64 + u mod 64 = (u::nat)"
proof -
  define v where "v = u div 64"
  have 1: "u = v * 64 + u mod 64" by (simp add: v_def)
  have 2: "v = (v div 64) * 64 + v mod 64" by simp
  have 3: "u div 4096 = v div 64" by (simp add: v_def div_mult2_eq[symmetric])
  have "(v div 64) * 4096 + (v mod 64) * 64 + u mod 64 = u"
    using 1 2 by linarith
  then show ?thesis unfolding 3 v_def .
qed

lemma ed_range: "u div 4096 = 13 \<Longrightarrow> 53248 \<le> (u::nat) \<and> u < 57344"
  by linarith

lemma mod_shift:
  fixes w :: nat
  assumes "k * 64 \<le> w" "w < k * 64 + m" "m \<le> 64"
  shows "w mod 64 = w - k * 64" "w mod 64 < m"
proof -
  obtain d where d: "w = d + k * 64" using assms(1) by (metis le_add_diff_inverse2)
  then have "d < m" using assms(2) by simp
  then have "d < 64" using assms(3) by simp
  have "w mod 64 = d mod 64" unfolding d by simp
  then have "w mod 64 = d" using \<open>d < 64\<close> by simp
  then show "w mod 64 = w - k * 64" "w mod 64 < m" using d \<open>d < m\<close> by simp_all
qed

lemma mod_small: "832 \<le> (w::nat) \<Longrightarrow> w < 864 \<Longrightarrow> w mod 64 < 32"
  using mod_shift(2)[of 13 w 32] by simp


lemma dec3:
  assumes "0x800 \<le> u" "u < 0x10000" "\<not> (0xD800 \<le> u \<and> u < 0xE000)"
  shows "utf8_decode_bytes ((0xE0 + u div 4096) # (0x80 + (u div 64) mod 64)
                              # (0x80 + u mod 64) # rest)
           = u # utf8_decode_bytes rest"
proof -
  let ?b0 = "0xE0 + u div 4096"
  let ?b1 = "0x80 + (u div 64) mod 64"
  let ?b2 = "0x80 + u mod 64"
  have a: "(?b0 < 0x80) = False" "(0xC2 \<le> ?b0 \<and> ?b0 \<le> 0xDF) = False" by simp_all
  have "u div 4096 < 16" using assms(2) by simp
  then have b: "(0xE0 \<le> ?b0 \<and> ?b0 \<le> 0xEF) = True" by simp
  have lo: "(if ?b0 = 0xE0 then 0xA0 else 0x80) \<le> ?b1"
  proof (cases "?b0 = 0xE0")
    case True
    then have "u < 4096" by simp
    then have "u div 64 < 64" by simp
    moreover have "32 \<le> u div 64" using assms(1) by simp
    ultimately have "32 \<le> (u div 64) mod 64" by simp
    then show ?thesis using True by simp
  next
    case False
    then show ?thesis by simp
  qed
  have hi: "?b1 \<le> (if ?b0 = 0xED then 0x9F else 0xBF)"
  proof (cases "?b0 = 0xED")
    case True
    then have d: "u div 4096 = 13" by simp
    then have r: "53248 \<le> u" "u < 57344" using ed_range by blast+
    then have "u < 55296" using assms(3) by simp
    then have "u div 64 < 864" by simp
    moreover have "832 \<le> u div 64" using r(1) by simp
    ultimately have "(u div 64) mod 64 < 32" by (rule_tac mod_small)
    then show ?thesis using True by simp
  next
    case False
    have "(u div 64) mod 64 < 64" by simp
    then show ?thesis using False by simp
  qed
  have lohi: "((if ?b0 = 0xE0 then 0xA0 else 0x80) \<le> ?b1
                \<and> ?b1 \<le> (if ?b0 = 0xED then 0x9F else 0xBF)) = True"
    using lo hi by simp
  have d: "is_cont ?b2 = True" by (simp add: is_cont_def)
  have e: "(?b0 - 0xE0) * 4096 + (?b1 - 0x80) * 64 + (?b2 - 0x80) = u"
    using split3[of u] by simp
  show ?thesis
    by (simp only: utf8_decode_bytes.simps a b lohi d e if_True if_False list.case)
qed


lemma split4:
  "(c div 262144) * 262144 + ((c div 4096) mod 64) * 4096 + ((c div 64) mod 64) * 64
     + c mod 64 = (c::nat)"
proof -
  define v where "v = c div 64"
  define w where "w = v div 64"
  have 1: "c = v * 64 + c mod 64" by (simp add: v_def)
  have 2: "v = w * 64 + v mod 64" by (simp add: w_def)
  have 3: "w = (w div 64) * 64 + w mod 64" by simp
  have 4: "c div 4096 = w" by (simp add: v_def w_def div_mult2_eq[symmetric])
  have 5: "c div 262144 = w div 64" by (simp add: v_def w_def div_mult2_eq[symmetric])
  have "(w div 64) * 262144 + (w mod 64) * 4096 + (v mod 64) * 64 + c mod 64 = c"
    using 1 2 3 by linarith
  then show ?thesis unfolding 4 5 unfolding v_def .
qed

lemma dec4:
  assumes "0xD800 \<le> hi" "hi < 0xDC00" "0xDC00 \<le> lo" "lo < 0xE000"
      and cp: "cp = 0x10000 + (hi - 0xD800) * 1024 + (lo - 0xDC00)"
  shows "utf8_decode_bytes ((0xF0 + cp div 262144) # (0x80 + (cp div 4096) mod 64)
                              # (0x80 + (cp div 64) mod 64) # (0x80 + cp mod 64) # rest)
           = hi # lo # utf8_decode_bytes rest"
proof -
  let ?b0 = "0xF0 + cp div 262144"
  let ?b1 = "0x80 + (cp div 4096) mod 64"
  let ?b2 = "0x80 + (cp div 64) mod 64"
  let ?b3 = "0x80 + cp mod 64"
  define x where "x = hi - 0xD800"
  define y where "y = lo - 0xDC00"
  have xy: "x < 1024" "y < 1024" "hi = 0xD800 + x" "lo = 0xDC00 + y"
    using assms by (simp_all add: x_def y_def)
  have cpxy: "cp = 65536 + x * 1024 + y" using cp by (simp add: x_def y_def)
  have range: "65536 \<le> cp" "cp < 1114112" using cpxy xy by simp_all
  have q: "cp div 262144 < 5" using range by simp
  have a: "(?b0 < 0x80) = False" "(0xC2 \<le> ?b0 \<and> ?b0 \<le> 0xDF) = False"
      "(0xE0 \<le> ?b0 \<and> ?b0 \<le> 0xEF) = False"
    by simp_all
  have b: "(0xF0 \<le> ?b0 \<and> ?b0 \<le> 0xF4) = True" using q by simp
  have lo: "(if ?b0 = 0xF0 then 0x90 else 0x80) \<le> ?b1"
  proof (cases "?b0 = 0xF0")
    case True
    then have "cp < 262144" by simp
    then have "cp div 4096 < 64" by simp
    moreover have "16 \<le> cp div 4096" using range(1) by simp
    ultimately have "16 \<le> (cp div 4096) mod 64" by simp
    then show ?thesis using True by simp
  next
    case False
    then show ?thesis by simp
  qed
  have hi: "?b1 \<le> (if ?b0 = 0xF4 then 0x8F else 0xBF)"
  proof (cases "?b0 = 0xF4")
    case True
    then have "cp div 262144 = 4" by simp
    then have "1048576 \<le> cp" by linarith
    then have "4 * 64 \<le> cp div 4096" by simp
    moreover have "cp div 4096 < 4 * 64 + 16" using range(2) by simp
    ultimately have "(cp div 4096) mod 64 < 16" using mod_shift(2)[of 4 "cp div 4096" 16] by simp
    then show ?thesis using True by simp
  next
    case False
    have "(cp div 4096) mod 64 < 64" by simp
    then show ?thesis using False by simp
  qed
  have lohi: "((if ?b0 = 0xF0 then 0x90 else 0x80) \<le> ?b1
                \<and> ?b1 \<le> (if ?b0 = 0xF4 then 0x8F else 0xBF)) = True"
    using lo hi by simp
  have d: "is_cont ?b2 = True" "is_cont ?b3 = True" by (simp_all add: is_cont_def)
  have e: "(?b0 - 0xF0) * 262144 + (?b1 - 0x80) * 4096 + (?b2 - 0x80) * 64 + (?b3 - 0x80)
             - 0x10000 = x * 1024 + y"
    using split4[of cp] cpxy by simp
  have f: "(x * 1024 + y) div 1024 = x" "(x * 1024 + y) mod 1024 = y" using xy by simp_all
  have g: "0xD800 + x = hi" "0xDC00 + y = lo" using xy by simp_all
  show ?thesis
    by (simp only: utf8_decode_bytes.simps a b lohi d e f g if_True if_False list.case Let_def)
qed


lemma decFFFD:
  "utf8_decode_bytes (0xEF # 0xBF # 0xBD # rest) = 0xFFFD # utf8_decode_bytes rest"
  using dec3[of "0xFFFD" rest] by simp

text \<open>Decoding the encoding of a string gives the string with its unpaired surrogates
  replaced by U+FFFD.\<close>

lemma utf8_decode_encode_units:
  "list_all (\<lambda>u. u < 65536) us \<Longrightarrow>
   utf8_decode_bytes (utf8_encode_units us) = toWellFormed_units us"
proof (induction us rule: toWellFormed_units.induct)
  case 1
  then show ?case by simp
next
  case (2 u us)
  have ub: "u < 65536" and rest_b: "list_all (\<lambda>u. u < 65536) us"
    using "2.prems" by simp_all
  show ?case
  proof (cases "0xD800 \<le> u \<and> u < 0xDC00")
    case True
    have nots: "(u < 0x80) = False" "(u < 0x800) = False" using True by simp_all
    show ?thesis
    proof (cases us)
      case Nil
      have enc: "utf8_encode_units [u] = [0xEF, 0xBF, 0xBD]" using True by simp
      have tw: "toWellFormed_units [u] = [0xFFFD]" using True by simp
      show ?thesis unfolding Nil enc tw using decFFFD[of "[]"] by simp
    next
      case (Cons v vs)
      show ?thesis
      proof (cases "0xDC00 \<le> v \<and> v < 0xE000")
        case low: True
        have rest: "utf8_decode_bytes (utf8_encode_units vs) = toWellFormed_units vs"
          using "2.IH"(1)[OF True Cons low] rest_b Cons by simp
        have enc: "utf8_encode_units (u # v # vs) =
            (0xF0 + (0x10000 + (u - 0xD800) * 1024 + (v - 0xDC00)) div 262144)
            # (0x80 + ((0x10000 + (u - 0xD800) * 1024 + (v - 0xDC00)) div 4096) mod 64)
            # (0x80 + ((0x10000 + (u - 0xD800) * 1024 + (v - 0xDC00)) div 64) mod 64)
            # (0x80 + (0x10000 + (u - 0xD800) * 1024 + (v - 0xDC00)) mod 64)
            # utf8_encode_units vs"
          using True low by (simp add: Let_def)
        have tw: "toWellFormed_units (u # v # vs) = u # v # toWellFormed_units vs"
          using True low by simp
        show ?thesis
          unfolding Cons enc tw
          using dec4[of u v "0x10000 + (u - 0xD800) * 1024 + (v - 0xDC00)"
                        "utf8_encode_units vs"]
                True low rest
          by simp
      next
        case nolow: False
        have f: "(0xDC00 \<le> v \<and> v < 0xE000) = False" using nolow by simp
        have t: "(0xD800 \<le> u \<and> u < 0xDC00) = True" using True by simp
        have rest: "utf8_decode_bytes (utf8_encode_units (v # vs)) = toWellFormed_units (v # vs)"
          using "2.IH"(2)[OF True Cons nolow] rest_b Cons
          by (simp del: utf8_encode_units.simps toWellFormed_units.simps)
        have enc: "utf8_encode_units (u # v # vs) =
                     0xEF # 0xBF # 0xBD # utf8_encode_units (v # vs)"
          by (subst utf8_encode_units.simps)
             (simp only: nots t f if_True if_False list.case)
        have tw: "toWellFormed_units (u # v # vs) = 0xFFFD # toWellFormed_units (v # vs)"
          by (subst toWellFormed_units.simps) (simp only: t f if_True if_False list.case)
        show ?thesis unfolding Cons enc tw decFFFD rest ..
      qed
    qed
  next
    case nohigh: False
    show ?thesis
    proof (cases "0xDC00 \<le> u \<and> u < 0xE000")
      case True
      have f: "(0xD800 \<le> u \<and> u < 0xDC00) = False" "(0xDC00 \<le> u \<and> u < 0xE000) = True"
              "(u < 0x80) = False" "(u < 0x800) = False"
        using nohigh True by simp_all
      have rest: "utf8_decode_bytes (utf8_encode_units us) = toWellFormed_units us"
        using "2.IH"(3)[OF nohigh True] rest_b by simp
      have enc: "utf8_encode_units (u # us) = 0xEF # 0xBF # 0xBD # utf8_encode_units us"
        by (simp only: utf8_encode_units.simps f if_False if_True)
      have tw: "toWellFormed_units (u # us) = 0xFFFD # toWellFormed_units us"
        by (simp only: toWellFormed_units.simps f if_False if_True)
      show ?thesis unfolding enc tw decFFFD rest ..
    next
      case nolow: False
      have ns: "\<not> (0xD800 \<le> u \<and> u < 0xE000)" using nohigh nolow by auto
      have rest: "utf8_decode_bytes (utf8_encode_units us) = toWellFormed_units us"
        using "2.IH"(4)[OF nohigh nolow] rest_b by simp
      have g: "(0xD800 \<le> u \<and> u < 0xDC00) = False" "(0xDC00 \<le> u \<and> u < 0xE000) = False"
        using nohigh nolow by simp_all
      have tw: "toWellFormed_units (u # us) = u # toWellFormed_units us"
        by (simp only: toWellFormed_units.simps g if_False)
      consider "u < 0x80" | "0x80 \<le> u" "u < 0x800" | "0x800 \<le> u" by linarith
      then show ?thesis
      proof cases
        case 1
        then have enc: "utf8_encode_units (u # us) = u # utf8_encode_units us" by simp
        show ?thesis unfolding enc tw using rest dec1[OF 1, of "utf8_encode_units us"] by simp
      next
        case 2
        then have enc: "utf8_encode_units (u # us) =
                     (0xC0 + u div 64) # (0x80 + u mod 64) # utf8_encode_units us"
          by simp
        show ?thesis unfolding enc tw using rest dec2[OF 2, of "utf8_encode_units us"] by simp
      next
        case 3
        have f: "(u < 0x80) = False" "(u < 0x800) = False" using 3 by simp_all
        have enc: "utf8_encode_units (u # us) =
                     (0xE0 + u div 4096) # (0x80 + (u div 64) mod 64) # (0x80 + u mod 64)
                       # utf8_encode_units us"
          by (simp only: utf8_encode_units.simps f g if_False)
        show ?thesis unfolding enc tw
          using rest dec3[OF 3 _ ns, of "utf8_encode_units us"] ub by simp
      qed
    qed
  qed
qed

lemma toWellFormed_units_bound:
  "list_all (\<lambda>u. u < 65536) us \<Longrightarrow> list_all (\<lambda>u. u < 65536) (toWellFormed_units us)"
proof (induction us rule: toWellFormed_units.induct)
  case 1
  then show ?case by simp
next
  case (2 u us)
  have ub: "u < 65536" and rest_b: "list_all (\<lambda>u. u < 65536) us"
    using "2.prems" by simp_all
  show ?case
  proof (cases "0xD800 \<le> u \<and> u < 0xDC00")
    case True
    have t: "(0xD800 \<le> u \<and> u < 0xDC00) = True" using True by simp
    show ?thesis
    proof (cases us)
      case Nil
      have tw: "toWellFormed_units [u] = [0xFFFD]" using True by simp
      show ?thesis unfolding Nil tw by simp
    next
      case (Cons v vs)
      show ?thesis
      proof (cases "0xDC00 \<le> v \<and> v < 0xE000")
        case low: True
        have tw: "toWellFormed_units (u # v # vs) = u # v # toWellFormed_units vs"
          using True low by simp
        have "list_all (\<lambda>u. u < 65536) (toWellFormed_units vs)"
          using "2.IH"(1)[OF True Cons low] rest_b Cons by simp
        then show ?thesis unfolding Cons tw using ub rest_b Cons by simp
      next
        case nolow: False
        have f: "(0xDC00 \<le> v \<and> v < 0xE000) = False" using nolow by simp
        have tw: "toWellFormed_units (u # v # vs) = 0xFFFD # toWellFormed_units (v # vs)"
          by (subst toWellFormed_units.simps) (simp only: t f if_True if_False list.case)
        have "list_all (\<lambda>u. u < 65536) (toWellFormed_units (v # vs))"
          using "2.IH"(2)[OF True Cons nolow] rest_b Cons
          by (simp del: toWellFormed_units.simps)
        then show ?thesis unfolding Cons tw by (simp del: toWellFormed_units.simps)
      qed
    qed
  next
    case nohigh: False
    show ?thesis
    proof (cases "0xDC00 \<le> u \<and> u < 0xE000")
      case True
      have f: "(0xD800 \<le> u \<and> u < 0xDC00) = False" "(0xDC00 \<le> u \<and> u < 0xE000) = True"
        using nohigh True by simp_all
      have tw: "toWellFormed_units (u # us) = 0xFFFD # toWellFormed_units us"
        by (simp only: toWellFormed_units.simps f if_False if_True)
      have "list_all (\<lambda>u. u < 65536) (toWellFormed_units us)"
        using "2.IH"(3)[OF nohigh True] rest_b by simp
      then show ?thesis unfolding tw by simp
    next
      case False
      have f: "(0xD800 \<le> u \<and> u < 0xDC00) = False" "(0xDC00 \<le> u \<and> u < 0xE000) = False"
        using nohigh False by simp_all
      have tw: "toWellFormed_units (u # us) = u # toWellFormed_units us"
        by (simp only: toWellFormed_units.simps f if_False)
      have "list_all (\<lambda>u. u < 65536) (toWellFormed_units us)"
        using "2.IH"(4)[OF nohigh False] rest_b by simp
      then show ?thesis unfolding tw using ub by simp
    qed
  qed
qed

text \<open>The replacement changes a string exactly when the string is not well formed.\<close>

lemma toWellFormed_units_id:
  "(toWellFormed_units us = us) = well_formed_units us"
proof (induction us rule: well_formed_units.induct)
  case 1
  then show ?case by simp
next
  case (2 u us)
  show ?case
  proof (cases "0xD800 \<le> u \<and> u < 0xDC00")
    case True
    then have ne: "u \<noteq> 0xFFFD" by auto
    show ?thesis
    proof (cases us)
      case Nil
      then show ?thesis using True ne by auto
    next
      case (Cons v vs)
      show ?thesis
      proof (cases "0xDC00 \<le> v \<and> v < 0xE000")
        case low: True
        then show ?thesis using True Cons "2.IH"(1)[OF True Cons] by simp
      next
        case False
        have f: "(0xDC00 \<le> v \<and> v < 0xE000) = False" using False by simp
        have t: "(0xD800 \<le> u \<and> u < 0xDC00) = True" using True by simp
        have tw: "toWellFormed_units (u # v # vs) = 0xFFFD # toWellFormed_units (v # vs)"
          by (subst toWellFormed_units.simps) (simp only: t f if_True if_False list.case)
        have wf: "well_formed_units (u # v # vs) = False"
          using True False by auto
        show ?thesis unfolding Cons tw wf using ne by simp
      qed
    qed
  next
    case nohigh: False
    show ?thesis
    proof (cases "0xDC00 \<le> u \<and> u < 0xE000")
      case True
      then have ne: "u \<noteq> 0xFFFD" by auto
      have f: "(0xD800 \<le> u \<and> u < 0xDC00) = False" "(0xDC00 \<le> u \<and> u < 0xE000) = True"
        using nohigh True by simp_all
      have tw: "toWellFormed_units (u # us) = 0xFFFD # toWellFormed_units us"
        by (simp only: toWellFormed_units.simps f if_False if_True)
      have wf: "well_formed_units (u # us) = False"
        by (simp only: well_formed_units.simps f if_False simp_thms)
      show ?thesis unfolding tw wf using ne by simp
    next
      case False
      have f: "(0xD800 \<le> u \<and> u < 0xDC00) = False" "(0xDC00 \<le> u \<and> u < 0xE000) = False"
        using nohigh False by simp_all
      have tw: "toWellFormed_units (u # us) = u # toWellFormed_units us"
        by (simp only: toWellFormed_units.simps f if_False)
      have wf: "well_formed_units (u # us) = well_formed_units us"
        by (simp only: well_formed_units.simps f if_False simp_thms)
      show ?thesis unfolding tw wf using "2.IH"(2)[OF nohigh] by simp
    qed
  qed
qed

lemma utf8_encode_units_bytes:
  "list_all (\<lambda>u. u < 65536) us \<Longrightarrow> list_all (\<lambda>b. b < 256) (utf8_encode_units us)"
proof (induction us rule: utf8_encode_units.induct)
  case 1
  then show ?case by simp
next
  case (2 u us)
  have ub: "u < 65536" using "2.prems" by simp
  have rest: "list_all (\<lambda>u. u < 65536) us" using "2.prems" by simp
  consider "u < 0x80" | "\<not> u < 0x80" "u < 0x800"
    | "\<not> u < 0x80" "\<not> u < 0x800" "0xD800 \<le> u \<and> u < 0xDC00"
    | "\<not> u < 0x80" "\<not> u < 0x800" "\<not> (0xD800 \<le> u \<and> u < 0xDC00)" "0xDC00 \<le> u \<and> u < 0xE000"
    | "\<not> u < 0x80" "\<not> u < 0x800" "\<not> (0xD800 \<le> u \<and> u < 0xDC00)" "\<not> (0xDC00 \<le> u \<and> u < 0xE000)"
    by blast
  then show ?case
  proof cases
    case 1
    then show ?thesis using "2.IH"(1) rest by simp
  next
    case 2
    have "u div 64 < 32" using 2 by linarith
    moreover have "u mod 64 < 64" by simp
    ultimately show ?thesis using 2 "2.IH"(2) rest by simp
  next
    case 3
    show ?thesis
    proof (cases us)
      case Nil
      then show ?thesis using 3 by simp
    next
      case (Cons v vs)
      show ?thesis
      proof (cases "0xDC00 \<le> v \<and> v < 0xE000")
        case True
        define cp where "cp = 0x10000 + (u - 0xD800) * 1024 + (v - 0xDC00)"
        have "u - 0xD800 \<le> 1023" using 3 by linarith
        then have "(u - 0xD800) * 1024 \<le> 1023 * 1024" by (rule mult_le_mono1)
        moreover have "v - 0xDC00 \<le> 1023" using True by linarith
        ultimately have "cp < 1114112" unfolding cp_def by linarith
        then have "cp div 262144 < 5" by linarith
        moreover have "list_all (\<lambda>b. b < 256) (utf8_encode_units vs)"
          using "2.IH"(3)[OF 3(1) 3(2) 3(3) Cons True] rest Cons by (simp add: cp_def)
        moreover have "cp div 4096 mod 64 < 64" "cp div 64 mod 64 < 64" "cp mod 64 < 64"
          by simp_all
        then have "cp div 4096 mod 64 < 128" "cp div 64 mod 64 < 128" "cp mod 64 < 128"
          by linarith+
        ultimately show ?thesis using 3 Cons True by (simp add: Let_def cp_def[symmetric])
      next
        case False
        have ih: "list_all (\<lambda>b. b < 256) (utf8_encode_units (v # vs))"
          using "2.IH"(4)[OF 3(1) 3(2) 3(3) Cons False] rest Cons
          by (simp del: utf8_encode_units.simps)
        have enc: "utf8_encode_units (u # v # vs) = 239 # 191 # 189 # utf8_encode_units (v # vs)"
        proof -
          have f: "(0xDC00 \<le> v \<and> v < 0xE000) = False" using False by simp
          show ?thesis using 3
            by (subst utf8_encode_units.simps) (simp add: f del: utf8_encode_units.simps)
        qed
        show ?thesis unfolding Cons enc using ih by (simp del: utf8_encode_units.simps)
      qed
    qed
  next
    case 4
    have f: "(0xD800 \<le> u \<and> u < 0xDC00) = False" "(0xDC00 \<le> u \<and> u < 0xE000) = True"
            "(u < 0x80) = False" "(u < 0x800) = False"
      using 4 by simp_all
    have ih: "list_all (\<lambda>b. b < 256) (utf8_encode_units us)"
      using "2.IH"(5)[OF 4] rest by simp
    have enc: "utf8_encode_units (u # us) = 0xEF # 0xBF # 0xBD # utf8_encode_units us"
      by (simp only: utf8_encode_units.simps f if_False if_True)
    show ?thesis unfolding enc using ih by simp
  next
    case 5
    have f: "(0xD800 \<le> u \<and> u < 0xDC00) = False" "(0xDC00 \<le> u \<and> u < 0xE000) = False"
            "(u < 0x80) = False" "(u < 0x800) = False"
      using 5 by simp_all
    have ih: "list_all (\<lambda>b. b < 256) (utf8_encode_units us)"
      using "2.IH"(6)[OF 5] rest by simp
    have enc: "utf8_encode_units (u # us) =
                   (0xE0 + u div 4096) # (0x80 + (u div 64) mod 64) # (0x80 + u mod 64)
                     # utf8_encode_units us"
      by (simp only: utf8_encode_units.simps f if_False)
    have "u div 4096 < 16" using ub by linarith
    moreover have "u div 64 mod 64 < 64" "u mod 64 < 64" by simp_all
    then have "u div 64 mod 64 < 128" "u mod 64 < 128" by linarith+
    ultimately show ?thesis unfolding enc using ih by simp
  qed
qed


lemma unat_of_nat_byte: "b < 256 \<Longrightarrow> unat (of_nat b :: 8 word) = b"
  by (simp add: unat_of_nat)

lemma map_unat_of_nat_bytes:
  "list_all (\<lambda>b. b < 256) bs \<Longrightarrow> map (unat \<circ> (of_nat :: nat \<Rightarrow> 8 word)) bs = bs"
  by (induction bs) (simp_all add: unat_of_nat_byte)

lemma map_of_nat_unat: "map (of_nat \<circ> unat) s = (s :: 'a::len word list)"
  by (induction s) simp_all

lemma units_bound: "list_all (\<lambda>u. u < 65536) (map unat (s :: 16 word list))"
proof (induction s)
  case Nil
  then show ?case by simp
next
  case (Cons a s)
  have "unat a < 2 ^ 16" using unsigned_less[of a, where 'a = nat] by simp
  then show ?case using Cons by simp
qed

lemma map_unat_of_nat_units:
  "list_all (\<lambda>u. u < 65536) us \<Longrightarrow> map (unat \<circ> (of_nat :: nat \<Rightarrow> 16 word)) us = us"
  by (induction us) (simp_all add: unat_of_nat)

lemma utf8_decode_encode: "utf8_string (utf8_bytes s) = toWellFormed s"
  using utf8_decode_encode_units[of "map unat s"] units_bound[of s]
        utf8_encode_units_bytes[of "map unat s"]
  by (simp add: utf8_string_def utf8_bytes_def toWellFormed_def map_unat_of_nat_bytes)

lemma toWellFormed_id: "(toWellFormed s = s) = well_formed s"
proof
  assume eq: "toWellFormed s = s"
  have b: "list_all (\<lambda>u. u < 65536) (toWellFormed_units (map unat s))"
    using toWellFormed_units_bound[OF units_bound[of s]] .
  have "map unat (toWellFormed s) = toWellFormed_units (map unat s)"
    using map_unat_of_nat_units[OF b] by (simp add: toWellFormed_def)
  then have "toWellFormed_units (map unat s) = map unat s" using eq by simp
  then show "well_formed s" by (simp add: well_formed_def toWellFormed_units_id)
next
  assume "well_formed s"
  then have "toWellFormed_units (map unat s) = map unat s"
    by (simp add: well_formed_def toWellFormed_units_id)
  then show "toWellFormed s = s" by (simp add: toWellFormed_def map_of_nat_unat)
qed

lemma be_split4:
  fixes n :: nat
  shows "((n div 2 ^ 24 * 256 + (n div 2 ^ 16) mod 256) * 256 + (n div 2 ^ 8) mod 256) * 256
           + n mod 256 = n"
proof -
  define q1 where "q1 = n div 256"
  define q2 where "q2 = q1 div 256"
  define q3 where "q3 = q2 div 256"
  have a: "n div 2 ^ 8 = q1" by (simp add: q1_def)
  have b: "n div 2 ^ 16 = q2" by (simp add: q1_def q2_def div_mult2_eq[symmetric])
  have c: "n div 2 ^ 24 = q3" by (simp add: q1_def q2_def q3_def div_mult2_eq[symmetric])
  define r0 where "r0 = n mod 256"
  define r1 where "r1 = q1 mod 256"
  define r2 where "r2 = q2 mod 256"
  have 1: "n = q1 * 256 + r0" by (simp add: q1_def r0_def)
  have 2: "q1 = q2 * 256 + r1" by (simp add: q2_def r1_def)
  have 3: "q2 = q3 * 256 + r2" by (simp add: q3_def r2_def)
  have "((q3 * 256 + r2) * 256 + r1) * 256 + r0 = n"
    unfolding 3[symmetric] 2[symmetric] 1[symmetric] ..
  then show ?thesis unfolding a b c r0_def r1_def r2_def .
qed

lemma writeUInt32BE_be_value:
  assumes "n < 2 ^ 32"
  shows "\<exists>bs. writeUInt32BE n = Inr bs \<and> length bs = 4 \<and> be_value bs = n"
proof -
  have "n div 2 ^ 24 < 256" using assms by simp
  then have a: "unat (of_nat (n div 2 ^ 24) :: 8 word) = n div 2 ^ 24"
    by (rule unat_of_nat_byte)
  have b: "unat (of_nat ((n div 2 ^ 16) mod 256) :: 8 word) = (n div 2 ^ 16) mod 256"
    by (rule unat_of_nat_byte) simp
  have c: "unat (of_nat ((n div 2 ^ 8) mod 256) :: 8 word) = (n div 2 ^ 8) mod 256"
    by (rule unat_of_nat_byte) simp
  have d: "unat (of_nat (n mod 256) :: 8 word) = n mod 256"
    by (rule unat_of_nat_byte) simp
  have "be_value [of_nat (n div 2 ^ 24), of_nat ((n div 2 ^ 16) mod 256),
                  of_nat ((n div 2 ^ 8) mod 256), of_nat (n mod 256)] = n"
    unfolding be_value_def foldl.simps a b c d using be_split4[of n] by simp
  then show ?thesis using assms by (simp add: writeUInt32BE_def)
qed

text \<open>
  Claim C8, amended.  For every plaintext string \<open>P\<close> whose UTF-8 encoding is shorter
  than \<open>2^32\<close> bytes, \<open>encrypt\<close> returns a frame; decrypting the frame with its first 4
  bytes removed gives \<open>P\<close> with every unpaired surrogate replaced by U+FFFD, which is
  \<open>P\<close> itself exactly when \<open>P\<close> has no unpaired surrogate; the first 4 bytes are the
  byte length of the UTF-8 encoding of \<open>P\<close> as a big-endian 32-bit number; and the rest
  of the frame is the XOR stream of that encoding.
\<close>

theorem C8_xor_roundtrip_up_to_unpaired_surrogates:
  assumes "length (utf8_bytes P) < 2 ^ 32"
  shows "\<exists>frame. XorEncryption_encrypt P = Inr frame
           \<and> XorEncryption_decrypt (drop 4 frame) = toWellFormed P
           \<and> (XorEncryption_decrypt (drop 4 frame) = P) = well_formed P
           \<and> length (take 4 frame) = 4
           \<and> be_value (take 4 frame) = length (utf8_bytes P)
           \<and> drop 4 frame = xorPayload INITIALIZATION_VECTOR (utf8_bytes P)"
proof -
  obtain bs where bs: "writeUInt32BE (length (utf8_bytes P)) = Inr bs" "length bs = 4"
      "be_value bs = length (utf8_bytes P)"
    using writeUInt32BE_be_value[OF assms] by blast
  let ?frame = "bs @ xorPayload INITIALIZATION_VECTOR (utf8_bytes P)"
  have enc: "XorEncryption_encrypt P = Inr ?frame"
    using bs(1) by (simp add: XorEncryption_encrypt_def)
  have dr: "drop 4 ?frame = xorPayload INITIALIZATION_VECTOR (utf8_bytes P)"
    using bs(2) by simp
  have tk: "take 4 ?frame = bs" using bs(2) by simp
  have dec: "XorEncryption_decrypt (drop 4 ?frame) = toWellFormed P"
    unfolding dr XorEncryption_decrypt_def xor_roundtrip by (rule utf8_decode_encode)
  have iff: "(XorEncryption_decrypt (drop 4 ?frame) = P) = well_formed P"
    unfolding dec by (rule toWellFormed_id)
  show ?thesis
    using enc dec iff dr tk bs(2) bs(3) by (intro exI[of _ ?frame]) simp
qed

text \<open>
  Claim C8, amended, at the five code units of a string with an ASCII letter, a two-byte
  character, a three-byte character and a surrogate pair.
\<close>

theorem C8_xor_roundtrip_up_to_unpaired_surrogates_witness:
  "length (utf8_bytes [0x68, 0xE9, 0x20AC, 0xD83D, 0xDE00]) < 2 ^ 32
   \<and> (\<exists>frame. XorEncryption_encrypt [0x68, 0xE9, 0x20AC, 0xD83D, 0xDE00] = Inr frame
           \<and> XorEncryption_decrypt (drop 4 frame) = toWellFormed [0x68, 0xE9, 0x20AC, 0xD83D, 0xDE00]
           \<and> (XorEncryption_decrypt (drop 4 frame) = [0x68, 0xE9, 0x20AC, 0xD83D, 0xDE00]) = well_formed [0x68, 0xE9, 0x20AC, 0xD83D, 0xDE00]
           \<and> length (take 4 frame) = 4
           \<and> be_value (take 4 frame) = length (utf8_bytes [0x68, 0xE9, 0x20AC, 0xD83D, 0xDE00])
           \<and> drop 4 frame = xorPayload INITIALIZATION_VECTOR (utf8_bytes [0x68, 0xE9, 0x20AC, 0xD83D, 0xDE00]))
   \<and> well_formed [0x68, 0xE9, 0x20AC, 0xD83D, 0xDE00]"
proof -
  have ln: "length (utf8_bytes [0x68, 0xE9, 0x20AC, 0xD83D, 0xDE00]) < 2 ^ 32"
    by (simp add: utf8_bytes_def Let_def)
  have wf: "well_formed [0x68, 0xE9, 0x20AC, 0xD83D, 0xDE00]"
    by (simp add: well_formed_def)
  from ln C8_xor_roundtrip_up_to_unpaired_surrogates[OF ln] wf
  show ?thesis by (intro conjI)
qed

text \<open>
  Claim C8 as stated fails at the one-unit string holding the unpaired high surrogate
  \<open>U+D800\<close>: the UTF-8 encoder replaces it by \<open>U+FFFD\<close> (bytes \<open>EF BF BD\<close>), so
  decrypting the encrypted frame without its prefix gives \<open>U+FFFD\<close>, not the plaintext.
\<close>

theorem C8_unpaired_surrogate_counterexample:
  "XorEncryption_encrypt [0xD800] = Inr [0, 0, 0, 3, 0x44, 0xFB, 0x46]
   \<and> XorEncryption_decrypt (drop 4 [0, 0, 0, 3, 0x44, 0xFB, 0x46]) = [0xFFFD]
   \<and> XorEncryption_decrypt (drop 4 [0, 0, 0, 3, 0x44, 0xFB, 0x46]) \<noteq> [0xD800]"
  by (simp add: XorEncryption_encrypt_def XorEncryption_decrypt_def utf8_bytes_def
      utf8_string_def writeUInt32BE_def INITIALIZATION_VECTOR_def Let_def is_cont_def)

section \<open>Properties of the discovery protocol\<close>

text \<open>A datagram from an address in the seen-set changes nothing.\<close>

lemma datagram_from_seen_host_ignored:
  "ip \<in> set (seenHosts p) \<Longrightarrow> discover_step env p (Datagram ip port data) = p"
  by (simp add: datagramReceived_begin_def)

lemma seenHosts_grow:
  "set (seenHosts p) \<subseteq> set (seenHosts (discover_step env p i))"
proof (cases i)
  case (Datagram ip port data)
  then show ?thesis
    by (auto simp: datagramReceived_begin_def Let_def split: sum.splits)
next
  case (Settled ip outcome)
  then show ?thesis
    by (auto simp: datagramReceived_resume_def handleDiscoveredEvent_def
             split: option.splits sum.splits)
qed

lemma decrypt_empty: "XorEncryption_decrypt [] = []"
  by (simp add: XorEncryption_decrypt_def utf8_string_def)

lemma utf8_string_empty: "utf8_string [] = []"
  by (simp add: utf8_string_def)

text \<open>The two bytes \<open>D0 AD\<close> are the XOR stream of the text \<open>{}\<close>.\<close>

lemma decrypt_braces: "XorEncryption_decrypt [0xD0, 0xAD] = [0x7B, 0x7D]"
  by (simp add: XorEncryption_decrypt_def utf8_string_def INITIALIZATION_VECTOR_def)

text \<open>
  Claim C9.  Single-target discovery of \<open>192.168.0.10\<close>, with a parser that accepts the
  text \<open>{}\<close> and rejects the empty text as \<open>JSON.parse\<close> does.  The first datagram from
  the target has an empty payload, which neither parser accepts: the address enters the
  seen-set and the handler returns without signalling completion.  A second, valid datagram
  from the target is then ignored as a duplicate, so that nothing is discovered and
  \<open>complete\<close> is never emitted before the timeout.  When the valid datagram comes first,
  the device is discovered and \<open>complete\<close> is emitted once.
\<close>

theorem C9_unparseable_reply_from_target_blocks_completion:
  "discover_run
     \<lparr>json_parse = (\<lambda>s. if s = [0x7B, 0x7D] then JsonValue ''{}''
                          else JsonSyntaxError ''Unexpected end of JSON input''),
      info_result = (\<lambda>i. None)\<rparr>
     (new_DiscoverProtocol ''192.168.0.10'')
     [Datagram ''192.168.0.10'' 9999 [],
      Datagram ''192.168.0.10'' 9999 [0xD0, 0xAD],
      Settled ''192.168.0.10'' (Inr ''plug'')]
   = \<lparr>dp_target = ''192.168.0.10'', seenHosts = [''192.168.0.10''],
      discoveredDevices = Map.empty, unsupportedDeviceExceptions = Map.empty,
      invalidDeviceExceptions = Map.empty, targetDiscovered = False, completes = 0,
      awaiting = []\<rparr>
   \<and> discover_run
     \<lparr>json_parse = (\<lambda>s. if s = [0x7B, 0x7D] then JsonValue ''{}''
                          else JsonSyntaxError ''Unexpected end of JSON input''),
      info_result = (\<lambda>i. None)\<rparr>
     (new_DiscoverProtocol ''192.168.0.10'')
     [Datagram ''192.168.0.10'' 9999 [0xD0, 0xAD],
      Settled ''192.168.0.10'' (Inr ''plug'')]
   = \<lparr>dp_target = ''192.168.0.10'', seenHosts = [''192.168.0.10''],
      discoveredDevices = [''192.168.0.10'' \<mapsto> Device ''plug''],
      unsupportedDeviceExceptions = Map.empty,
      invalidDeviceExceptions = Map.empty, targetDiscovered = True, completes = 1,
      awaiting = []\<rparr>"
  by (simp add: discover_run_def new_DiscoverProtocol_def datagramReceived_begin_def
        datagramReceived_resume_def handleDiscoveredEvent_def getDiscoveryJsonLegacy_def
        getDiscoveryJson_def decrypt_empty utf8_string_empty decrypt_braces Let_def)

end
